theory Spec2Isabelle
  imports Main "HOL-Library.Multiset" "HOL-Library.AList"
begin

section \<open>The word-guesser round engine\<close>

text \<open>
  A shallow embedding of the game service of the word-guesser backend
  (\<^verbatim>\<open>services/gameService.ts\<close>, with \<^verbatim>\<open>constants.ts\<close>, \<^verbatim>\<open>types/index.ts\<close> and
  \<^verbatim>\<open>services/genaiService.ts\<close>), and of the handlers that drive it
  (\<^verbatim>\<open>socket.ts\<close>, the room routes).

  Conventions.
  \<^item> Every \<^verbatim>\<open>async\<close> function becomes a function from the world (the Redis keys and the
    database tables it touches) to its result and the new world. Handlers run one after
    the other; interleavings of two handlers are outside the model.
  \<^item> \<^verbatim>\<open>Math.random()\<close> is a parameter: a draw is a natural number, and
    \<^verbatim>\<open>Math.floor(Math.random() * n)\<close> is the draw modulo \<open>n\<close>, any index below \<open>n\<close>.
  \<^item> A table is the list of its rows in creation order; a row's position stands for its
    generated primary key where the code only passes the key on.
  \<^item> The Prisma schema is not among the sources. Every write is taken to be accepted by
    the database, and an update changes the rows that match its \<^verbatim>\<open>where\<close>.
  \<^item> Player and room ids are ordinary keys of a JavaScript object (no id is the name of
    a property of \<^verbatim>\<open>Object.prototype\<close>). The target of a vote is any string: the
    socket handler passes it on as the client sent it.
\<close>

subsection \<open>Constants (\<^verbatim>\<open>GAME_CONFIG\<close>)\<close>

definition MIN_PLAYERS :: nat where
  "MIN_PLAYERS = 4"

definition MAX_PLAYERS :: nat where
  "MAX_PLAYERS = 8"

definition WHITE_HAT_MIN_PLAYERS :: int where
  \<comment> \<open>The source comments: White Hat only appears when > 5 players.\<close>
  "WHITE_HAT_MIN_PLAYERS = 6"

subsection \<open>Role assignment\<close>

datatype PlayerRole = CIVILIAN | BLACK_HAT | WHITE_HAT

text \<open>
  The destructuring swap \<^verbatim>\<open>[roles[i], roles[j]] = [roles[j], roles[i]]\<close>: the right-hand
  side is read first, then the two cells are written.
\<close>

definition swap :: "'a list \<Rightarrow> nat \<Rightarrow> nat \<Rightarrow> 'a list" where
  "swap xs i j = (let a = xs ! j; b = xs ! i in (xs[i := a])[j := b])"

text \<open>
  The shuffle loop \<^verbatim>\<open>for (let i = roles.length - 1; i > 0; i--)\<close>, entered at index \<open>i\<close>.
  \<open>rnd i\<close> is the draw of the iteration at index \<open>i\<close>.
\<close>

fun shuffleFrom :: "(nat \<Rightarrow> nat) \<Rightarrow> nat \<Rightarrow> 'a list \<Rightarrow> 'a list" where
  "shuffleFrom rnd 0 xs = xs"
| "shuffleFrom rnd (Suc k) xs =
     (let i = Suc k; j = rnd i mod (i + 1) in shuffleFrom rnd k (swap xs i j))"

definition assignRoles :: "(nat \<Rightarrow> nat) \<Rightarrow> int \<Rightarrow> PlayerRole list" where
  "assignRoles rnd playerCount =
     (let hasWhiteHat = (playerCount > WHITE_HAT_MIN_PLAYERS - 1);
          roles = [BLACK_HAT];
          roles = (if hasWhiteHat then roles @ [WHITE_HAT] else roles);
          civilianCount = playerCount - int (length roles);
          roles = roles @ replicate (nat civilianCount) CIVILIAN
      in shuffleFrom rnd (length roles - 1) roles)"


subsection \<open>Data model (\<^verbatim>\<open>types/index.ts\<close> and the tables the service reads)\<close>

datatype Phase = HINTING | VOTING | GUESSING | RESULT

datatype RoomStatus = WAITING | IN_PROGRESS | FINISHED

record ClueRecord =
  clue_playerId :: string
  clue_displayName :: string
  clue_content :: string
  clue_createdAt :: nat

text \<open>
  \<open>votes\<close> is the object \<^verbatim>\<open>Record<string, string>\<close> from voter id to target id, kept as
  the list of its entries in insertion order (the order of \<^verbatim>\<open>Object.values\<close>).
\<close>

record GameState =
  roomId :: string
  roundNumber :: nat
  phase :: Phase
  turnOrder :: "string list"
  currentTurnIndex :: nat
  clues :: "ClueRecord list"
  votes :: "(string \<times> string) list"
  eliminatedPlayers :: "string list"
  wordPairId :: string

text \<open>A player row, joined with its user for the display name.\<close>

record Player =
  player_id :: string
  player_userId :: string
  player_roomId :: string
  player_displayName :: string
  player_isActive :: bool
  player_role :: "PlayerRole option"

record Room =
  room_id :: string
  room_code :: string
  room_hostId :: string
  room_status :: RoomStatus
  room_maxPlayers :: nat

record Round =
  round_roomId :: string
  round_roundNumber :: nat
  round_wordPairId :: string
  round_phase :: Phase
  round_ended :: bool

record WordPair =
  wp_id :: string
  wordA :: string
  wordB :: string
  wp_isActive :: bool

text \<open>
  The world: the Redis key \<^verbatim>\<open>game:<roomId>\<close> and the tables. \<open>db_clues\<close> and \<open>db_votes\<close>
  are the match history (round, player, text or target); nothing reads them back. The
  Redis copy of the room (\<^verbatim>\<open>room:<roomId>\<close>) is left out: no decision of the service
  depends on it.
\<close>

record World =
  redis_game :: "string \<rightharpoonup> GameState"
  db_rooms :: "Room list"
  db_players :: "Player list"
  db_rounds :: "Round list"
  db_wordPairs :: "WordPair list"
  db_clues :: "(nat \<times> string \<times> string) list"
  db_votes :: "(nat \<times> string \<times> string) list"

subsection \<open>Replies\<close>

text \<open>
  The messages of the service are Vietnamese sentences; each is named by what it says.
\<close>

datatype Message =
    GameNotStarted
  | NotHintingPhase
  | NotYourTurn
  | InvalidRound
  | InvalidPlayer
  | NotVotingPhase
  | EliminatedCannotVote
  | AlreadyVoted
  | RoomNotFound
  | OnlyHostCanStart
  | GameAlreadyStarted
  | NeedMorePlayers
  | NoWordPair

text \<open>\<^verbatim>\<open>{ success: false, message }\<close>, \<^verbatim>\<open>{ success: true, nextPlayerId }\<close>,
  \<^verbatim>\<open>{ success: true, votingStarted: true }\<close>.\<close>

datatype ClueReply = ClueFailure Message | NextPlayer string | VotingStarted

text \<open>\<^verbatim>\<open>{ success: false, message }\<close>, \<^verbatim>\<open>{ success: true, allVoted }\<close>.\<close>

datatype VoteReply = VoteFailure Message | VoteAccepted bool

text \<open>\<^verbatim>\<open>{ gameOver: false }\<close>, \<^verbatim>\<open>{ gameOver: true, winner }\<close>.\<close>

datatype WinResult = GameContinues | GameOver PlayerRole

record RoundResolution =
  eliminatedPlayerId :: "string option"
  eliminatedRole :: "PlayerRole option"
  isWhiteHat :: bool
  gameOver :: bool
  winner :: "PlayerRole option"

record GuessReply =
  success :: bool
  correct :: bool
  correctWord :: "string option"
  guess_gameOver :: "bool option"
  guess_winner :: "PlayerRole option"

text \<open>The two \<^verbatim>\<open>throw new Error(...)\<close> of \<^verbatim>\<open>resolveVotes\<close>.\<close>

datatype error = GameStateNotFound | EliminatedPlayerNotFound

subsection \<open>JavaScript values\<close>

text \<open>\<^verbatim>\<open>xs[i]\<close> is \<^verbatim>\<open>undefined\<close> past the end of the array.\<close>

definition nthOpt :: "'a list \<Rightarrow> nat \<Rightarrow> 'a option" where
  "nthOpt xs i = (if i < length xs then Some (xs ! i) else None)"

text \<open>Truthiness of a property that holds a string: a missing property and the empty
  string are falsy.\<close>

definition truthy :: "string option \<Rightarrow> bool" where
  "truthy v = (case v of None \<Rightarrow> False | Some s \<Rightarrow> s \<noteq> [])"

text \<open>
  \<^verbatim>\<open>xs.sort(() => Math.random() - 0.5)\<close>: the comparator ignores its arguments, so the
  order of the result is decided by the draws alone; the language only promises a
  rearrangement of \<open>xs\<close>. The model inserts each element at a drawn position, which can
  produce every rearrangement.
\<close>

fun sortRandom :: "(nat \<Rightarrow> nat) \<Rightarrow> 'a list \<Rightarrow> 'a list" where
  "sortRandom rnd [] = []"
| "sortRandom rnd (x # xs) =
     (let ys = sortRandom rnd xs; k = rnd (length xs) mod (length ys + 1)
      in take k ys @ x # drop k ys)"

subsection \<open>Storage access\<close>

definition getGameState :: "World \<Rightarrow> string \<Rightarrow> GameState option" where
  "getGameState w rid = redis_game w rid"

text \<open>The key is built from \<^verbatim>\<open>state.roomId\<close>.\<close>

definition setGameState :: "World \<Rightarrow> GameState \<Rightarrow> World" where
  "setGameState w state = w\<lparr>redis_game := (redis_game w)(roomId state \<mapsto> state)\<rparr>"

definition deleteGameState :: "World \<Rightarrow> string \<Rightarrow> World" where
  "deleteGameState w rid = w\<lparr>redis_game := (redis_game w)(rid := None)\<rparr>"

text \<open>\<^verbatim>\<open>prisma.player.findUnique({ where: { id } })\<close>\<close>

definition findPlayer :: "World \<Rightarrow> string \<Rightarrow> Player option" where
  "findPlayer w pid = find (\<lambda>p. player_id p = pid) (db_players w)"

text \<open>\<^verbatim>\<open>prisma.player.findMany({ where: { roomId, isActive: true } })\<close>\<close>

definition activePlayersOf :: "World \<Rightarrow> string \<Rightarrow> Player list" where
  "activePlayersOf w rid =
     filter (\<lambda>p. player_roomId p = rid \<and> player_isActive p) (db_players w)"

text \<open>\<^verbatim>\<open>prisma.player.update({ where: { id }, data: { isActive: false } })\<close>\<close>

definition deactivate :: "string \<Rightarrow> Player \<Rightarrow> Player" where
  "deactivate pid p = (if player_id p = pid then p\<lparr>player_isActive := False\<rparr> else p)"

definition markInactive :: "World \<Rightarrow> string \<Rightarrow> World" where
  "markInactive w pid = w\<lparr>db_players := map (deactivate pid) (db_players w)\<rparr>"

text \<open>\<^verbatim>\<open>prisma.round.findFirst({ where: { roomId, roundNumber } })\<close>, as the position of
  the row.\<close>

definition findRound :: "World \<Rightarrow> string \<Rightarrow> nat \<Rightarrow> nat option" where
  "findRound w rid n =
     find (\<lambda>i. round_roomId (db_rounds w ! i) = rid \<and> round_roundNumber (db_rounds w ! i) = n)
       [0..<length (db_rounds w)]"

text \<open>\<^verbatim>\<open>prisma.round.findFirst({ where: { roomId }, orderBy: { roundNumber: 'desc' } })\<close>\<close>

definition latestRound :: "World \<Rightarrow> string \<Rightarrow> nat option" where
  "latestRound w rid =
     (case filter (\<lambda>i. round_roomId (db_rounds w ! i) = rid) [0..<length (db_rounds w)] of
        [] \<Rightarrow> None
      | i # is \<Rightarrow>
          Some (foldl (\<lambda>best j.
                  if round_roundNumber (db_rounds w ! best) < round_roundNumber (db_rounds w ! j)
                  then j else best) i is))"

definition setRoundPhase :: "World \<Rightarrow> nat \<Rightarrow> Phase \<Rightarrow> World" where
  "setRoundPhase w i ph =
     w\<lparr>db_rounds := (db_rounds w)[i := (db_rounds w ! i)\<lparr>round_phase := ph\<rparr>]\<rparr>"

text \<open>\<^verbatim>\<open>prisma.room.update({ where: { id }, data: { status } })\<close>\<close>

definition withStatus :: "string \<Rightarrow> RoomStatus \<Rightarrow> Room \<Rightarrow> Room" where
  "withStatus rid st r = (if room_id r = rid then r\<lparr>room_status := st\<rparr> else r)"

definition setRoomStatus :: "World \<Rightarrow> string \<Rightarrow> RoomStatus \<Rightarrow> World" where
  "setRoomStatus w rid st = w\<lparr>db_rooms := map (withStatus rid st) (db_rooms w)\<rparr>"

text \<open>\<^verbatim>\<open>prisma.wordPair.findUnique({ where: { id } })\<close>\<close>

definition findWordPair :: "World \<Rightarrow> string \<Rightarrow> WordPair option" where
  "findWordPair w wid = find (\<lambda>p. wp_id p = wid) (db_wordPairs w)"

text \<open>\<^verbatim>\<open>getRandomWordPair()\<close>: count the active pairs; none gives \<^verbatim>\<open>null\<close>; otherwise skip
  \<^verbatim>\<open>Math.floor(Math.random() * count)\<close> of them and take the next.\<close>

definition getRandomWordPair :: "World \<Rightarrow> nat \<Rightarrow> WordPair option" where
  "getRandomWordPair w draw =
     (let active = filter wp_isActive (db_wordPairs w); count = length active
      in if count = 0 then None else nthOpt active (draw mod count))"

subsection \<open>Win conditions\<close>

definition checkWinConditions :: "World \<Rightarrow> string \<Rightarrow> GameState option \<Rightarrow> WinResult" where
  "checkWinConditions w rid state =
     (let gs = (case state of Some s \<Rightarrow> Some s | None \<Rightarrow> getGameState w rid)
      in if gs = None then GameContinues
         else
           let activePlayers = activePlayersOf w rid;
               hasBlackHat = list_ex (\<lambda>p. player_role p = Some BLACK_HAT) activePlayers;
               hasWhiteHat = list_ex (\<lambda>p. player_role p = Some WHITE_HAT) activePlayers;
               activeCount = length activePlayers
           in if activeCount \<le> 2 \<and> hasBlackHat then GameOver BLACK_HAT
              else if \<not> hasBlackHat then GameOver CIVILIAN
              else if \<not> hasBlackHat \<and> \<not> hasWhiteHat then GameOver CIVILIAN
              else GameContinues)"

text \<open>The same function with the third test and its return deleted.\<close>

definition checkWinConditions_pruned ::
  "World \<Rightarrow> string \<Rightarrow> GameState option \<Rightarrow> WinResult" where
  "checkWinConditions_pruned w rid state =
     (let gs = (case state of Some s \<Rightarrow> Some s | None \<Rightarrow> getGameState w rid)
      in if gs = None then GameContinues
         else
           let activePlayers = activePlayersOf w rid;
               hasBlackHat = list_ex (\<lambda>p. player_role p = Some BLACK_HAT) activePlayers;
               activeCount = length activePlayers
           in if activeCount \<le> 2 \<and> hasBlackHat then GameOver BLACK_HAT
              else if \<not> hasBlackHat then GameOver CIVILIAN
              else GameContinues)"

text \<open>
  The same function again, returning which of its five \<^verbatim>\<open>return\<close> statements it leaves
  through instead of the value returned there.
\<close>

datatype ReturnSite =
    AtNoGameState
  | AtFewPlayersWithBlackHat
  | AtNoBlackHat
  | AtNoBlackHatNoWhiteHat
  | AtEnd

definition checkWinConditions_site ::
  "World \<Rightarrow> string \<Rightarrow> GameState option \<Rightarrow> ReturnSite" where
  "checkWinConditions_site w rid state =
     (let gs = (case state of Some s \<Rightarrow> Some s | None \<Rightarrow> getGameState w rid)
      in if gs = None then AtNoGameState
         else
           let activePlayers = activePlayersOf w rid;
               hasBlackHat = list_ex (\<lambda>p. player_role p = Some BLACK_HAT) activePlayers;
               hasWhiteHat = list_ex (\<lambda>p. player_role p = Some WHITE_HAT) activePlayers;
               activeCount = length activePlayers
           in if activeCount \<le> 2 \<and> hasBlackHat then AtFewPlayersWithBlackHat
              else if \<not> hasBlackHat then AtNoBlackHat
              else if \<not> hasBlackHat \<and> \<not> hasWhiteHat then AtNoBlackHatNoWhiteHat
              else AtEnd)"

fun returnedAt :: "ReturnSite \<Rightarrow> WinResult" where
  "returnedAt AtNoGameState = GameContinues"
| "returnedAt AtFewPlayersWithBlackHat = GameOver BLACK_HAT"
| "returnedAt AtNoBlackHat = GameOver CIVILIAN"
| "returnedAt AtNoBlackHatNoWhiteHat = GameOver CIVILIAN"
| "returnedAt AtEnd = GameContinues"

subsection \<open>Next round and end of game\<close>

text \<open>
  \<open>draw\<close> picks the word pair, \<open>rnd\<close> drives the sort of the turn order. The function
  mutates the state object it is given and stores it; callers drop the object afterwards,
  so the model returns the world only.
\<close>

definition startNextRound ::
  "World \<Rightarrow> string \<Rightarrow> GameState \<Rightarrow> nat \<Rightarrow> (nat \<Rightarrow> nat) \<Rightarrow> World" where
  "startNextRound w rid state draw rnd =
     (case getRandomWordPair w draw of
        None \<Rightarrow> w
      | Some wordPair \<Rightarrow>
          let state = state\<lparr>roundNumber := roundNumber state + 1\<rparr>;
              state = state\<lparr>phase := HINTING\<rparr>;
              state = state\<lparr>clues := []\<rparr>;
              state = state\<lparr>votes := []\<rparr>;
              state = state\<lparr>wordPairId := wp_id wordPair\<rparr>;
              activePlayers = activePlayersOf w rid;
              state = state\<lparr>turnOrder := map player_id (sortRandom rnd activePlayers)\<rparr>;
              state = state\<lparr>currentTurnIndex := 0\<rparr>;
              w = w\<lparr>db_rounds := db_rounds w @
                    [\<lparr>round_roomId = rid, round_roundNumber = roundNumber state,
                      round_wordPairId = wp_id wordPair, round_phase = HINTING,
                      round_ended = False\<rparr>]\<rparr>
          in setGameState w state)"

definition endGame :: "World \<Rightarrow> string \<Rightarrow> GameState \<Rightarrow> PlayerRole \<Rightarrow> World" where
  "endGame w rid state winner' =
     (let w = setRoomStatus w rid FINISHED;
          w = (case latestRound w rid of
                 None \<Rightarrow> w
               | Some i \<Rightarrow>
                   w\<lparr>db_rounds :=
                       (db_rounds w)[i := (db_rounds w ! i)\<lparr>round_phase := RESULT,
                                                            round_ended := True\<rparr>]\<rparr>)
      in deleteGameState w rid)"

subsection \<open>Clue submission\<close>

text \<open>The loop \<^verbatim>\<open>while (i < turnOrder.length && eliminatedPlayers.includes(turnOrder[i])) i++\<close>.\<close>

function skipEliminated :: "string list \<Rightarrow> string list \<Rightarrow> nat \<Rightarrow> nat" where
  "skipEliminated order eliminated i =
     (if i < length order \<and> order ! i \<in> set eliminated
      then skipEliminated order eliminated (i + 1) else i)"
  by pat_completeness auto
termination
  by (relation "measure (\<lambda>(order, eliminated, i). length order - i)") auto

declare skipEliminated.simps [simp del]

definition submitClue ::
  "World \<Rightarrow> string \<Rightarrow> string \<Rightarrow> string \<Rightarrow> nat \<Rightarrow> ClueReply \<times> World" where
  "submitClue w rid playerId content now =
     (case getGameState w rid of
        None \<Rightarrow> (ClueFailure GameNotStarted, w)
      | Some state \<Rightarrow>
          if phase state \<noteq> HINTING then (ClueFailure NotHintingPhase, w)
          else if nthOpt (turnOrder state) (currentTurnIndex state) \<noteq> Some playerId
          then (ClueFailure NotYourTurn, w)
          else
            (case findRound w rid (roundNumber state) of
               None \<Rightarrow> (ClueFailure InvalidRound, w)
             | Some round \<Rightarrow>
                 (case findPlayer w playerId of
                    None \<Rightarrow> (ClueFailure InvalidPlayer, w)
                  | Some player \<Rightarrow>
                      let w = w\<lparr>db_clues := db_clues w @ [(round, playerId, content)]\<rparr>;
                          state = state\<lparr>clues := clues state @
                                    [\<lparr>clue_playerId = playerId,
                                      clue_displayName = player_displayName player,
                                      clue_content = content, clue_createdAt = now\<rparr>]\<rparr>;
                          state = state\<lparr>currentTurnIndex := currentTurnIndex state + 1\<rparr>;
                          state = state\<lparr>currentTurnIndex :=
                                    skipEliminated (turnOrder state) (eliminatedPlayers state)
                                      (currentTurnIndex state)\<rparr>
                      in if currentTurnIndex state \<ge> length (turnOrder state)
                         then
                           (let state = state\<lparr>phase := VOTING\<rparr>;
                                w = setRoundPhase w round VOTING
                            in (VotingStarted, setGameState w state))
                         else
                           (NextPlayer (turnOrder state ! currentTurnIndex state),
                            setGameState w state))))"

subsection \<open>Voting\<close>

definition submitVote :: "World \<Rightarrow> string \<Rightarrow> string \<Rightarrow> string \<Rightarrow> VoteReply \<times> World" where
  "submitVote w rid voterId targetId =
     (case getGameState w rid of
        None \<Rightarrow> (VoteFailure GameNotStarted, w)
      | Some state \<Rightarrow>
          if phase state \<noteq> VOTING then (VoteFailure NotVotingPhase, w)
          else if voterId \<in> set (eliminatedPlayers state)
          then (VoteFailure EliminatedCannotVote, w)
          else if truthy (map_of (votes state) voterId) then (VoteFailure AlreadyVoted, w)
          else
            (case findRound w rid (roundNumber state) of
               None \<Rightarrow> (VoteFailure InvalidRound, w)
             | Some round \<Rightarrow>
                 let w = w\<lparr>db_votes := db_votes w @ [(round, voterId, targetId)]\<rparr>;
                     state = state\<lparr>votes := AList.update voterId targetId (votes state)\<rparr>;
                     activePlayers =
                       filter (\<lambda>id. id \<notin> set (eliminatedPlayers state)) (turnOrder state);
                     allVoted = list_all (\<lambda>id. truthy (map_of (votes state) id)) activePlayers
                 in (VoteAccepted allVoted, setGameState w state)))"

subsection \<open>Vote resolution\<close>

text \<open>
  \<^verbatim>\<open>voteCounts\<close> starts as the object literal \<^verbatim>\<open>{}\<close>, whose prototype is
  \<^verbatim>\<open>Object.prototype\<close>, and its keys are the vote targets, which the socket handler
  takes from the client as they come. So a read \<^verbatim>\<open>voteCounts[targetId]\<close> that finds no own
  property goes on to the prototype: for the name of one of its eleven methods it yields
  that function, for \<^verbatim>\<open>__proto__\<close> the prototype itself, and \<^verbatim>\<open>undefined\<close> for any other
  name. The values met in the tally are these, numbers and strings.
\<close>

datatype JSValue =
    JSUndefined
  | JSNumber nat
  | JSString string
  | JSFunction string
  | JSObjectPrototype

text \<open>The methods of \<^verbatim>\<open>Object.prototype\<close>: property name and the function's own name.\<close>

definition prototypeMethods :: "(string \<times> string) list" where
  "prototypeMethods =
     [(''constructor'', ''Object''),
      (''__defineGetter__'', ''__defineGetter__''),
      (''__defineSetter__'', ''__defineSetter__''),
      (''hasOwnProperty'', ''hasOwnProperty''),
      (''__lookupGetter__'', ''__lookupGetter__''),
      (''__lookupSetter__'', ''__lookupSetter__''),
      (''isPrototypeOf'', ''isPrototypeOf''),
      (''propertyIsEnumerable'', ''propertyIsEnumerable''),
      (''toString'', ''toString''),
      (''valueOf'', ''valueOf''),
      (''toLocaleString'', ''toLocaleString'')]"

definition inherited :: "string \<Rightarrow> JSValue" where
  "inherited key =
     (if key = ''__proto__'' then JSObjectPrototype
      else case map_of prototypeMethods key of
             None \<Rightarrow> JSUndefined
           | Some name \<Rightarrow> JSFunction name)"

text \<open>\<^verbatim>\<open>obj[key]\<close>, read: the own property, else the inherited one.\<close>

definition getProperty :: "(string \<times> JSValue) list \<Rightarrow> string \<Rightarrow> JSValue" where
  "getProperty obj key = (case map_of obj key of Some v \<Rightarrow> v | None \<Rightarrow> inherited key)"

text \<open>
  \<^verbatim>\<open>obj[key] = v\<close> for a number or a string \<open>v\<close>: an own property is made or overwritten
  (the methods of the prototype are writable data properties, so they are shadowed),
  except under \<^verbatim>\<open>__proto__\<close>, whose inherited setter ignores a value that is neither an
  object nor \<^verbatim>\<open>null\<close>.
\<close>

definition setProperty ::
  "(string \<times> JSValue) list \<Rightarrow> string \<Rightarrow> JSValue \<Rightarrow> (string \<times> JSValue) list" where
  "setProperty obj key v = (if key = ''__proto__'' then obj else AList.update key v obj)"

text \<open>The text a built-in function converts to.\<close>

definition nativeSource :: "string \<Rightarrow> string" where
  "nativeSource name = ''function '' @ name @ ''() { [native code] }''"

text \<open>
  \<^verbatim>\<open>(v || 0) + 1\<close>: a falsy \<open>v\<close> (\<^verbatim>\<open>undefined\<close>, 0, the empty string) gives 1, a number its
  successor; a non-empty string, a function and an object are truthy, and \<^verbatim>\<open>+\<close> then
  appends the text \<^verbatim>\<open>1\<close> to their text.
\<close>

fun orZeroPlusOne :: "JSValue \<Rightarrow> JSValue" where
  "orZeroPlusOne JSUndefined = JSNumber 1"
| "orZeroPlusOne (JSNumber n) = JSNumber (n + 1)"
| "orZeroPlusOne (JSString s) = (if s = [] then JSNumber 1 else JSString (s @ ''1''))"
| "orZeroPlusOne (JSFunction name) = JSString (nativeSource name @ ''1'')"
| "orZeroPlusOne JSObjectPrototype = JSString ''[object Object]1''"

text \<open>
  The tally loop
  \<^verbatim>\<open>for (const targetId of Object.values(state.votes))
      voteCounts[targetId] = (voteCounts[targetId] || 0) + 1\<close>.
\<close>

definition tallyStep ::
  "(string \<times> JSValue) list \<Rightarrow> string \<Rightarrow> (string \<times> JSValue) list" where
  "tallyStep voteCounts targetId =
     setProperty voteCounts targetId (orZeroPlusOne (getProperty voteCounts targetId))"

definition countVotes :: "(string \<times> string) list \<Rightarrow> (string \<times> JSValue) list" where
  "countVotes vs = foldl tallyStep [] (map snd vs)"

text \<open>
  \<^verbatim>\<open>Math.max\<close> converts its arguments to numbers; \<open>None\<close> stands for \<^verbatim>\<open>NaN\<close>. A string
  that \<^verbatim>\<open>voteCounts\<close> holds starts with the text of a function (lemma
  \<open>countVotes_strings\<close> below), which is no numeric literal, so it converts to \<^verbatim>\<open>NaN\<close>.
\<close>

fun toNumber :: "JSValue \<Rightarrow> nat option" where
  "toNumber (JSNumber n) = Some n"
| "toNumber v = None"

text \<open>\<^verbatim>\<open>Math.max(0, ...Object.values(voteCounts))\<close>: \<^verbatim>\<open>NaN\<close> as soon as one argument is.\<close>

definition mathMax :: "nat option \<Rightarrow> nat option \<Rightarrow> nat option" where
  "mathMax a b =
     (case a of None \<Rightarrow> None
      | Some x \<Rightarrow> (case b of None \<Rightarrow> None | Some y \<Rightarrow> Some (max x y)))"

definition maxVotesOf :: "(string \<times> JSValue) list \<Rightarrow> nat option" where
  "maxVotesOf voteCounts = foldr mathMax (map (toNumber \<circ> snd) voteCounts) (Some 0)"

text \<open>\<^verbatim>\<open>count === maxVotes\<close>: false for a string, and false when \<^verbatim>\<open>maxVotes\<close> is \<^verbatim>\<open>NaN\<close>.\<close>

fun strictEquals :: "JSValue \<Rightarrow> nat option \<Rightarrow> bool" where
  "strictEquals (JSNumber n) (Some m) = (n = m)"
| "strictEquals v m = False"

text \<open>
  \<^verbatim>\<open>Object.entries(voteCounts).filter(([, count]) => count === maxVotes).map(([id]) => id)\<close>.
  \<^verbatim>\<open>Object.entries\<close> lists keys that are array indices before the others;
  \<^verbatim>\<open>resolveVotes\<close> reads the length of \<^verbatim>\<open>topTargets\<close> and, when that is one, its only
  element, so the model keeps the order of insertion.
\<close>

definition topTargetsOf :: "(string \<times> JSValue) list \<Rightarrow> string list" where
  "topTargetsOf voteCounts =
     map fst (filter (\<lambda>(target, count). strictEquals count (maxVotesOf voteCounts)) voteCounts)"

text \<open>
  With no top target, \<^verbatim>\<open>topTargets[0]\<close> is \<^verbatim>\<open>undefined\<close> and the player lookup has no id.
  Whether Prisma rejects such a query or answers with no row, \<^verbatim>\<open>resolveVotes\<close> throws
  before it writes anything; the model reports both as \<open>EliminatedPlayerNotFound\<close>.
\<close>

definition resolveVotes ::
  "World \<Rightarrow> string \<Rightarrow> nat \<Rightarrow> (nat \<Rightarrow> nat) \<Rightarrow> (error + RoundResolution) \<times> World" where
  "resolveVotes w rid draw rnd =
     (case getGameState w rid of
        None \<Rightarrow> (Inl GameStateNotFound, w)
      | Some state \<Rightarrow>
          let voteCounts = countVotes (votes state);
              topTargets = topTargetsOf voteCounts
          in if length topTargets > 1
             then
               (Inr \<lparr>eliminatedPlayerId = None, eliminatedRole = None, isWhiteHat = False,
                     gameOver = False, winner = None\<rparr>,
                startNextRound w rid state draw rnd)
             else
               (case nthOpt topTargets 0 of
                  None \<Rightarrow> (Inl EliminatedPlayerNotFound, w)
                | Some eliminated \<Rightarrow>
                    (case findPlayer w eliminated of
                       None \<Rightarrow> (Inl EliminatedPlayerNotFound, w)
                     | Some eliminatedPlayer \<Rightarrow>
                         let w = markInactive w eliminated;
                             state = state\<lparr>eliminatedPlayers :=
                                       eliminatedPlayers state @ [eliminated]\<rparr>
                         in if player_role eliminatedPlayer = Some WHITE_HAT
                            then
                              (let state = state\<lparr>phase := GUESSING\<rparr>;
                                   w = (case findRound w rid (roundNumber state) of
                                          None \<Rightarrow> w
                                        | Some round \<Rightarrow> setRoundPhase w round GUESSING)
                               in (Inr \<lparr>eliminatedPlayerId = Some eliminated,
                                        eliminatedRole = player_role eliminatedPlayer,
                                        isWhiteHat = True, gameOver = False, winner = None\<rparr>,
                                   setGameState w state))
                            else
                              (case checkWinConditions w rid (Some state) of
                                 GameOver side \<Rightarrow>
                                   (Inr \<lparr>eliminatedPlayerId = Some eliminated,
                                         eliminatedRole = player_role eliminatedPlayer,
                                         isWhiteHat = False, gameOver = True,
                                         winner = Some side\<rparr>,
                                    endGame w rid state side)
                               | GameContinues \<Rightarrow>
                                   (Inr \<lparr>eliminatedPlayerId = Some eliminated,
                                         eliminatedRole = player_role eliminatedPlayer,
                                         isWhiteHat = False, gameOver = False, winner = None\<rparr>,
                                    startNextRound w rid state draw rnd)))))"

subsection \<open>The white hat's guess\<close>

text \<open>
  \<^verbatim>\<open>String.prototype.trim\<close> and \<^verbatim>\<open>toLowerCase\<close> are built into the language; they are
  the parameters \<open>trim\<close> and \<open>toLowerCase\<close>. The parameter \<^verbatim>\<open>whiteHatPlayerId\<close> is not read
  by the source.
\<close>

definition submitWhiteHatGuess ::
  "(string \<Rightarrow> string) \<Rightarrow> (string \<Rightarrow> string) \<Rightarrow> World \<Rightarrow> string \<Rightarrow> string \<Rightarrow> string
     \<Rightarrow> nat \<Rightarrow> (nat \<Rightarrow> nat) \<Rightarrow> GuessReply \<times> World" where
  "submitWhiteHatGuess trim toLowerCase w rid whiteHatPlayerId guess draw rnd =
     (case getGameState w rid of
        None \<Rightarrow>
          (\<lparr>success = False, correct = False, correctWord = None, guess_gameOver = None,
            guess_winner = None\<rparr>, w)
      | Some state \<Rightarrow>
          if phase state \<noteq> GUESSING
          then (\<lparr>success = False, correct = False, correctWord = None, guess_gameOver = None,
                 guess_winner = None\<rparr>, w)
          else
            (case findWordPair w (wordPairId state) of
               None \<Rightarrow>
                 (\<lparr>success = False, correct = False, correctWord = None,
                   guess_gameOver = None, guess_winner = None\<rparr>, w)
             | Some wordPair \<Rightarrow>
                 if toLowerCase (trim guess) = toLowerCase (trim (wordA wordPair))
                 then
                   (\<lparr>success = True, correct = True, correctWord = None,
                     guess_gameOver = Some True, guess_winner = Some WHITE_HAT\<rparr>,
                    endGame w rid state WHITE_HAT)
                 else
                   (case checkWinConditions w rid (Some state) of
                      GameOver side \<Rightarrow>
                        (\<lparr>success = True, correct = False,
                          correctWord = Some (wordA wordPair), guess_gameOver = Some True,
                          guess_winner = Some side\<rparr>,
                         endGame w rid state side)
                    | GameContinues \<Rightarrow>
                        (\<lparr>success = True, correct = False,
                          correctWord = Some (wordA wordPair), guess_gameOver = Some False,
                          guess_winner = None\<rparr>,
                         startNextRound w rid state draw rnd))))"

subsection \<open>Game start\<close>

text \<open>\<^verbatim>\<open>{ success: false, message }\<close>, \<^verbatim>\<open>{ success: true, wordPairId }\<close>.\<close>

datatype StartReply = StartFailure Message | Started string

text \<open>\<^verbatim>\<open>prisma.room.findUnique({ where: { id } })\<close>\<close>

definition findRoom :: "World \<Rightarrow> string \<Rightarrow> Room option" where
  "findRoom w rid = find (\<lambda>r. room_id r = rid) (db_rooms w)"

text \<open>\<^verbatim>\<open>tx.player.update({ where: { id }, data: { role } })\<close>, for one pair of the loop
  over the active players and their roles.\<close>

definition setRole :: "string \<Rightarrow> PlayerRole \<Rightarrow> Player \<Rightarrow> Player" where
  "setRole pid r p = (if player_id p = pid then p\<lparr>player_role := Some r\<rparr> else p)"

definition assignRole :: "World \<Rightarrow> string \<times> PlayerRole \<Rightarrow> World" where
  "assignRole w a = w\<lparr>db_players := map (setRole (fst a) (snd a)) (db_players w)\<rparr>"

text \<open>
  \<open>draw\<close> picks the word pair, \<open>rndRoles\<close> drives the shuffle of the roles and \<open>rndOrder\<close>
  the sort of the turn order. The loop over \<open>activePlayers\<close> pairs the i-th player with
  \<open>roles[i]\<close>; from \<open>MIN_PLAYERS\<close> on the two lists have the same length.
\<close>

definition startGame ::
  "World \<Rightarrow> string \<Rightarrow> string \<Rightarrow> nat \<Rightarrow> (nat \<Rightarrow> nat) \<Rightarrow> (nat \<Rightarrow> nat) \<Rightarrow> StartReply \<times> World" where
  "startGame w rid hostUserId draw rndRoles rndOrder =
     (case findRoom w rid of
        None \<Rightarrow> (StartFailure RoomNotFound, w)
      | Some room \<Rightarrow>
          if room_hostId room \<noteq> hostUserId then (StartFailure OnlyHostCanStart, w)
          else if room_status room \<noteq> WAITING then (StartFailure GameAlreadyStarted, w)
          else
            let activePlayers = activePlayersOf w rid
            in if length activePlayers < MIN_PLAYERS then (StartFailure NeedMorePlayers, w)
               else
                 (case getRandomWordPair w draw of
                    None \<Rightarrow> (StartFailure NoWordPair, w)
                  | Some wordPair \<Rightarrow>
                      let roles = assignRoles rndRoles (int (length activePlayers));
                          w = setRoomStatus w rid IN_PROGRESS;
                          w = foldl assignRole w (zip (map player_id activePlayers) roles);
                          w = w\<lparr>db_rounds := db_rounds w @
                                [\<lparr>round_roomId = rid, round_roundNumber = 1,
                                  round_wordPairId = wp_id wordPair, round_phase = HINTING,
                                  round_ended = False\<rparr>]\<rparr>;
                          shuffledPlayers = sortRandom rndOrder activePlayers;
                          gameState =
                            \<lparr>roomId = rid, roundNumber = 1, phase = HINTING,
                             turnOrder = map player_id shuffledPlayers, currentTurnIndex = 0,
                             clues = [], votes = [], eliminatedPlayers = [],
                             wordPairId = wp_id wordPair\<rparr>
                      in (Started (wp_id wordPair), setGameState w gameState)))"

subsection \<open>The room routes (\<^verbatim>\<open>POST /rooms\<close>, \<^verbatim>\<open>POST /rooms/join\<close>, \<^verbatim>\<open>DELETE /rooms/:id/leave\<close>)\<close>

text \<open>
  Only what the routes write to the tables. The ids of new rows are generated by the
  database and are parameters here; \<open>code\<close> is the room code in upper case. A request
  that is turned away (too many rooms, no such room, room full) leaves the world as it
  is.
\<close>

definition findRoomByCode :: "World \<Rightarrow> string \<Rightarrow> Room option" where
  "findRoomByCode w code = find (\<lambda>r. room_code r = code) (db_rooms w)"

definition findMembership :: "World \<Rightarrow> string \<Rightarrow> string \<Rightarrow> Player option" where
  "findMembership w userId rid =
     find (\<lambda>p. player_userId p = userId \<and> player_roomId p = rid) (db_players w)"

definition newPlayer :: "string \<Rightarrow> string \<Rightarrow> string \<Rightarrow> string \<Rightarrow> Player" where
  "newPlayer pid userId displayName rid =
     \<lparr>player_id = pid, player_userId = userId, player_roomId = rid,
      player_displayName = displayName, player_isActive = True, player_role = None\<rparr>"

definition activate :: "string \<Rightarrow> Player \<Rightarrow> Player" where
  "activate pid p = (if player_id p = pid then p\<lparr>player_isActive := True\<rparr> else p)"

definition withHost :: "string \<Rightarrow> string \<Rightarrow> Room \<Rightarrow> Room" where
  "withHost rid userId r = (if room_id r = rid then r\<lparr>room_hostId := userId\<rparr> else r)"

definition createRoom ::
  "World \<Rightarrow> string \<Rightarrow> string \<Rightarrow> string \<Rightarrow> string \<Rightarrow> string \<Rightarrow> World" where
  "createRoom w newRoomId code userId displayName newPlayerId =
     w\<lparr>db_rooms := db_rooms w @
          [\<lparr>room_id = newRoomId, room_code = code, room_hostId = userId,
            room_status = WAITING, room_maxPlayers = MAX_PLAYERS\<rparr>],
       db_players := db_players w @ [newPlayer newPlayerId userId displayName newRoomId]\<rparr>"

definition joinRoom :: "World \<Rightarrow> string \<Rightarrow> string \<Rightarrow> string \<Rightarrow> string \<Rightarrow> World" where
  "joinRoom w code userId displayName newPlayerId =
     (if code = [] then w
      else
        (case findRoomByCode w code of
           None \<Rightarrow> w
         | Some room \<Rightarrow>
             if room_status room \<noteq> WAITING then w
             else if length (activePlayersOf w (room_id room)) \<ge> room_maxPlayers room then w
             else
               (case findMembership w userId (room_id room) of
                  Some existing \<Rightarrow>
                    if \<not> player_isActive existing
                    then w\<lparr>db_players := map (activate (player_id existing)) (db_players w)\<rparr>
                    else w
                | None \<Rightarrow>
                    w\<lparr>db_players := db_players w @
                         [newPlayer newPlayerId userId displayName (room_id room)]\<rparr>)))"

definition leaveRoom :: "World \<Rightarrow> string \<Rightarrow> string \<Rightarrow> World" where
  "leaveRoom w rid userId =
     (case findRoom w rid of
        None \<Rightarrow> w
      | Some room \<Rightarrow>
          (case findMembership w userId (room_id room) of
             None \<Rightarrow> w
           | Some player \<Rightarrow>
               let w = markInactive w (player_id player)
               in if room_hostId room = userId \<and> room_status room = WAITING
                  then
                    (case find (\<lambda>p. player_roomId p = room_id room \<and> player_isActive p
                                     \<and> player_userId p \<noteq> userId) (db_players w) of
                       Some nextPlayer \<Rightarrow>
                         w\<lparr>db_rooms :=
                             map (withHost (room_id room) (player_userId nextPlayer))
                               (db_rooms w)\<rparr>
                     | None \<Rightarrow> setRoomStatus w (room_id room) FINISHED)
                  else w))"

subsection \<open>The vote handler of the socket layer\<close>

text \<open>
  \<^verbatim>\<open>game:submit_vote\<close> calls \<open>submitVote\<close> and, when the reply says that all have voted,
  \<open>resolveVotes\<close>; this is the only caller of \<open>resolveVotes\<close>. An exception of
  \<open>resolveVotes\<close> leaves the world as \<open>submitVote\<close> stored it.
\<close>

definition onSubmitVote ::
  "World \<Rightarrow> string \<Rightarrow> string \<Rightarrow> string \<Rightarrow> nat \<Rightarrow> (nat \<Rightarrow> nat) \<Rightarrow> World" where
  "onSubmitVote w rid playerId targetPlayerId draw rnd =
     (case submitVote w rid playerId targetPlayerId of
        (VoteFailure m, w) \<Rightarrow> w
      | (VoteAccepted allVoted, w) \<Rightarrow>
          if allVoted then snd (resolveVotes w rid draw rnd) else w)"

subsection \<open>Reachable worlds\<close>

text \<open>
  The worlds the server can be in: from the empty world, by the room routes, the socket
  handlers (\<open>game:start\<close>, \<open>game:submit_clue\<close>, \<open>game:submit_vote\<close>,
  \<open>game:submit_guess\<close>), any change of the word catalogue, and the expiry of a game key
  in Redis. The handlers are taken with every argument, whoever sends it; a new row's id
  is one the table does not hold yet.
\<close>

definition initialWorld :: World where
  "initialWorld =
     \<lparr>redis_game = Map.empty, db_rooms = [], db_players = [], db_rounds = [],
      db_wordPairs = [], db_clues = [], db_votes = []\<rparr>"

inductive reachable :: "World \<Rightarrow> bool" where
  initial: "reachable initialWorld"
| words: "reachable w \<Longrightarrow> reachable (w\<lparr>db_wordPairs := pairs\<rparr>)"
| expiry: "reachable w \<Longrightarrow> reachable (deleteGameState w rid)"
| create:
    "reachable w \<Longrightarrow> newRoomId \<notin> room_id ` set (db_rooms w)
      \<Longrightarrow> newPlayerId \<notin> player_id ` set (db_players w)
      \<Longrightarrow> reachable (createRoom w newRoomId code userId displayName newPlayerId)"
| join:
    "reachable w \<Longrightarrow> newPlayerId \<notin> player_id ` set (db_players w)
      \<Longrightarrow> reachable (joinRoom w code userId displayName newPlayerId)"
| leave: "reachable w \<Longrightarrow> reachable (leaveRoom w rid userId)"
| start: "reachable w \<Longrightarrow> reachable (snd (startGame w rid userId draw rndRoles rndOrder))"
| clue: "reachable w \<Longrightarrow> reachable (snd (submitClue w rid playerId content now))"
| vote: "reachable w \<Longrightarrow> reachable (onSubmitVote w rid playerId targetPlayerId draw rnd)"
| guess:
    "reachable w
      \<Longrightarrow> reachable (snd (submitWhiteHatGuess trim toLowerCase w rid playerId guess draw rnd))"

text \<open>
  The turn cursor does not index an eliminated player: the entry of the turn order under
  the cursor, if there is one, is not on the state's \<open>eliminatedPlayers\<close> list (the list
  the skip loop of \<open>submitClue\<close> consults).
\<close>

definition cursorOk :: "GameState \<Rightarrow> bool" where
  "cursorOk st =
     (case nthOpt (turnOrder st) (currentTurnIndex st) of
        None \<Rightarrow> True
      | Some playerId \<Rightarrow> playerId \<notin> set (eliminatedPlayers st))"

text \<open>
  The invariant of a stored game: it is stored under its own room id; its room exists
  and is not waiting for players; no active player of the room is on its eliminated
  list; outside the hinting phase the cursor is past the end of the turn order; and the
  cursor does not index an eliminated player. In a consistent world player ids are
  unique and every stored game satisfies the invariant.
\<close>

definition activeIds :: "World \<Rightarrow> string \<Rightarrow> string set" where
  "activeIds w rid = player_id ` set (activePlayersOf w rid)"

definition gameBound :: "World \<Rightarrow> string \<Rightarrow> GameState \<Rightarrow> bool" where
  "gameBound w rid st =
     (roomId st = rid
      \<and> (\<exists>r \<in> set (db_rooms w). room_id r = rid)
      \<and> (\<forall>r \<in> set (db_rooms w). room_id r = rid \<longrightarrow> room_status r \<noteq> WAITING)
      \<and> activeIds w rid \<inter> set (eliminatedPlayers st) = {})"

definition gameOk :: "World \<Rightarrow> string \<Rightarrow> GameState \<Rightarrow> bool" where
  "gameOk w rid st =
     (roomId st = rid
      \<and> (\<exists>r \<in> set (db_rooms w). room_id r = rid)
      \<and> (\<forall>r \<in> set (db_rooms w). room_id r = rid \<longrightarrow> room_status r \<noteq> WAITING)
      \<and> (\<forall>p \<in> set (activePlayersOf w rid). player_id p \<notin> set (eliminatedPlayers st))
      \<and> (phase st \<noteq> HINTING \<longrightarrow> length (turnOrder st) \<le> currentTurnIndex st)
      \<and> cursorOk st)"

definition worldOk :: "World \<Rightarrow> bool" where
  "worldOk w =
     (distinct (map player_id (db_players w))
      \<and> (\<forall>rid st. redis_game w rid = Some st \<longrightarrow> gameOk w rid st))"

subsection \<open>The tally in the words of the specification\<close>

text \<open>
  The number of votes a target received, and the targets that received a vote and no
  fewer votes than any other target: the targets that hold the maximum count.
\<close>

definition votesFor :: "(string \<times> string) list \<Rightarrow> string \<Rightarrow> nat" where
  "votesFor vs t = length (filter (\<lambda>(voter, target). target = t) vs)"

definition leaders :: "(string \<times> string) list \<Rightarrow> string set" where
  "leaders vs = {t \<in> snd ` set vs. \<forall>u \<in> snd ` set vs. votesFor vs u \<le> votesFor vs t}"

text \<open>
  An ordinary key: a target id under which \<^verbatim>\<open>Object.prototype\<close> has no property, as are
  the ids of players.
\<close>

definition ordinaryKey :: "string \<Rightarrow> bool" where
  "ordinaryKey key = (inherited key = JSUndefined)"

subsection \<open>Built-in string functions on Latin-1 text\<close>

text \<open>
  \<^verbatim>\<open>trim\<close> and \<^verbatim>\<open>toLowerCase\<close> as ECMAScript defines them, on strings whose code units
  are below 256 (the characters of \<open>string\<close>): white space and line terminators are
  code units 9 to 13, 32 and 160; the letters with a lower-case partner are A to Z and
  the code units 192 to 222 except 215, and the partner is 32 higher, which sets bit 5.
  They instantiate the parameters of \<open>submitWhiteHatGuess\<close> in the examples.
\<close>

definition isWhiteSpace :: "char \<Rightarrow> bool" where
  "isWhiteSpace c = (of_char c \<in> {9, 10, 11, 12, 13, 32, 160 :: nat})"

definition jsTrim :: "string \<Rightarrow> string" where
  "jsTrim s = rev (dropWhile isWhiteSpace (rev (dropWhile isWhiteSpace s)))"

definition jsLowerChar :: "char \<Rightarrow> char" where
  "jsLowerChar c =
     (let n = (of_char c :: nat)
      in if (65 \<le> n \<and> n \<le> 90) \<or> (192 \<le> n \<and> n \<le> 222 \<and> n \<noteq> 215)
         then (case c of Char b0 b1 b2 b3 b4 b5 b6 b7 \<Rightarrow> Char b0 b1 b2 b3 b4 True b6 b7)
         else c)"

definition jsToLowerCase :: "string \<Rightarrow> string" where
  "jsToLowerCase s = map jsLowerChar s"

subsection \<open>Example worlds\<close>

text \<open>
  One room, \<open>room1\<close>, in progress, with its first round and the word pair
  M\`eo / Cho (the second letter is code unit 232).
\<close>

definition demoPlayer :: "string \<Rightarrow> PlayerRole \<Rightarrow> bool \<Rightarrow> Player" where
  "demoPlayer pid r active =
     \<lparr>player_id = pid, player_userId = ''user-'' @ pid, player_roomId = ''room1'',
      player_displayName = pid, player_isActive = active, player_role = Some r\<rparr>"

definition demoState ::
  "Phase \<Rightarrow> string list \<Rightarrow> nat \<Rightarrow> (string \<times> string) list \<Rightarrow> string list \<Rightarrow> GameState" where
  "demoState ph order i vs eliminated =
     \<lparr>roomId = ''room1'', roundNumber = 1, phase = ph, turnOrder = order,
      currentTurnIndex = i, clues = [], votes = vs, eliminatedPlayers = eliminated,
      wordPairId = ''wp1''\<rparr>"

definition demoPair :: "bool \<Rightarrow> WordPair" where
  "demoPair active =
     \<lparr>wp_id = ''wp1'', wordA = [CHR ''M'', CHR 0xE8, CHR ''o''], wordB = ''Cho'',
      wp_isActive = active\<rparr>"

definition demoWorld :: "Player list \<Rightarrow> WordPair list \<Rightarrow> GameState \<Rightarrow> World" where
  "demoWorld ps wps st =
     \<lparr>redis_game = [''room1'' \<mapsto> st],
      db_rooms = [\<lparr>room_id = ''room1'', room_code = ''ABCDEF'', room_hostId = ''user-p1'',
                   room_status = IN_PROGRESS, room_maxPlayers = 8\<rparr>],
      db_players = ps,
      db_rounds = [\<lparr>round_roomId = ''room1'', round_roundNumber = 1,
                    round_wordPairId = ''wp1'', round_phase = HINTING, round_ended = False\<rparr>],
      db_wordPairs = wps, db_clues = [], db_votes = []\<rparr>"

definition fourPlayers :: "Player list" where
  "fourPlayers = [demoPlayer ''p1'' BLACK_HAT True, demoPlayer ''p2'' CIVILIAN True,
                  demoPlayer ''p3'' CIVILIAN True, demoPlayer ''p4'' CIVILIAN True]"

definition sevenPlayers :: "Player list" where
  "sevenPlayers = [demoPlayer ''p1'' BLACK_HAT True, demoPlayer ''p2'' WHITE_HAT True,
                   demoPlayer ''p3'' CIVILIAN True, demoPlayer ''p4'' CIVILIAN True,
                   demoPlayer ''p5'' CIVILIAN True, demoPlayer ''p6'' CIVILIAN True,
                   demoPlayer ''p7'' CIVILIAN True]"

definition votingState :: "string list \<Rightarrow> (string \<times> string) list \<Rightarrow> GameState" where
  "votingState order vs = demoState VOTING order (length order) vs []"

definition votingWorld :: "Player list \<Rightarrow> (string \<times> string) list \<Rightarrow> World" where
  "votingWorld ps vs = demoWorld ps [demoPair True] (votingState (map player_id ps) vs)"

definition tieVotes :: "(string \<times> string) list" where
  "tieVotes = [(''p1'', ''p2''), (''p2'', ''p1''), (''p3'', ''p2''), (''p4'', ''p1'')]"

definition blackHatVotes :: "(string \<times> string) list" where
  "blackHatVotes = [(''p1'', ''p2''), (''p2'', ''p1''), (''p3'', ''p1''), (''p4'', ''p1'')]"

definition whiteHatVotes :: "(string \<times> string) list" where
  "whiteHatVotes = [(''p1'', ''p2''), (''p2'', ''p1''), (''p3'', ''p2''), (''p4'', ''p2''),
                    (''p5'', ''p3''), (''p6'', ''p2''), (''p7'', ''p1'')]"

definition ghostVotes :: "(string \<times> string) list" where
  "ghostVotes = [(''p1'', ''ghost''), (''p2'', ''ghost''), (''p3'', ''p1''), (''p4'', ''ghost'')]"

definition civilianVotes :: "(string \<times> string) list" where
  "civilianVotes = [(''p1'', ''p2''), (''p2'', ''p1''), (''p3'', ''p2''), (''p4'', ''p2'')]"

text \<open>Vote maps with a target that is named like a property of \<^verbatim>\<open>Object.prototype\<close>.\<close>

definition methodVotes :: "(string \<times> string) list" where
  "methodVotes = [(''p1'', ''p2''), (''p2'', ''p1''), (''p3'', ''p1''), (''p4'', ''toString'')]"

definition protoVotes :: "(string \<times> string) list" where
  "protoVotes = [(''p1'', ''__proto__''), (''p2'', ''__proto__''), (''p3'', ''__proto__''),
                 (''p4'', ''p1'')]"

definition guessState :: GameState where
  "guessState = demoState GUESSING [''p1'', ''p2'', ''p3'', ''p4'', ''p5'', ''p6''] 6 [] [''p6'']"

definition guessWorld :: World where
  "guessWorld =
     demoWorld [demoPlayer ''p1'' BLACK_HAT True, demoPlayer ''p2'' CIVILIAN True,
                demoPlayer ''p3'' CIVILIAN True, demoPlayer ''p4'' CIVILIAN True,
                demoPlayer ''p5'' CIVILIAN True, demoPlayer ''p6'' WHITE_HAT False]
       [demoPair True] guessState"

definition stuckWorld :: "GameState \<Rightarrow> World" where
  "stuckWorld st =
     demoWorld [demoPlayer ''p1'' BLACK_HAT True, demoPlayer ''p2'' CIVILIAN True,
                demoPlayer ''p3'' CIVILIAN True, demoPlayer ''p4'' CIVILIAN True,
                demoPlayer ''p5'' WHITE_HAT False]
       [demoPair False] st"

text \<open>A hinting phase with the cursor at \<open>i\<close> and the given eliminated list.\<close>

definition hintingState :: "nat \<Rightarrow> string list \<Rightarrow> GameState" where
  "hintingState i eliminated = demoState HINTING [''p1'', ''p2'', ''p3'', ''p4''] i [] eliminated"

definition hintingWorld :: "nat \<Rightarrow> string list \<Rightarrow> World" where
  "hintingWorld i eliminated = demoWorld fourPlayers [demoPair True] (hintingState i eliminated)"

text \<open>
  A world reached from the empty one: a word pair is added, \<open>user-p1\<close> opens \<open>room1\<close>,
  three users join, the host starts the game.
\<close>

definition lobbyOf :: "Player list \<Rightarrow> World" where
  "lobbyOf ps =
     \<lparr>redis_game = Map.empty,
      db_rooms = [\<lparr>room_id = ''room1'', room_code = ''ABCDEF'', room_hostId = ''user-p1'',
                   room_status = WAITING, room_maxPlayers = 8\<rparr>],
      db_players = ps, db_rounds = [], db_wordPairs = [demoPair True], db_clues = [],
      db_votes = []\<rparr>"

definition lobby1 :: World where
  "lobby1 = createRoom (initialWorld\<lparr>db_wordPairs := [demoPair True]\<rparr>)
              ''room1'' ''ABCDEF'' ''user-p1'' ''p1'' ''p1''"

definition lobby2 :: World where
  "lobby2 = joinRoom lobby1 ''ABCDEF'' ''user-p2'' ''p2'' ''p2''"

definition lobby3 :: World where
  "lobby3 = joinRoom lobby2 ''ABCDEF'' ''user-p3'' ''p3'' ''p3''"

definition lobby4 :: World where
  "lobby4 = joinRoom lobby3 ''ABCDEF'' ''user-p4'' ''p4'' ''p4''"

definition startedWorld :: World where
  "startedWorld = snd (startGame lobby4 ''room1'' ''user-p1'' 0 (\<lambda>i. 0) (\<lambda>i. 0))"

section \<open>Properties\<close>

subsection \<open>Facts about role assignment\<close>

lemma mset_swap_cells:
  "i < length xs \<Longrightarrow> j < length xs \<Longrightarrow> mset (swap xs i j) = mset xs"
  by (simp add: swap_def Let_def mset_swap)

lemma length_swap [simp]: "length (swap xs i j) = length xs"
  by (simp add: swap_def Let_def)

lemma mset_shuffleFrom:
  "k < length xs \<Longrightarrow> mset (shuffleFrom rnd k xs) = mset xs"
proof (induction k arbitrary: xs)
  case 0
  then show ?case by simp
next
  case (Suc k)
  have "rnd (Suc k) mod (Suc k + 1) < Suc k + 1"
    by simp
  then have j: "rnd (Suc k) mod (Suc k + 1) < length xs"
    using Suc.prems by linarith
  have "mset (shuffleFrom rnd (Suc k) xs) = mset (swap xs (Suc k) (rnd (Suc k) mod (Suc k + 1)))"
    using Suc.prems by (simp add: Let_def Suc.IH)
  also have "\<dots> = mset xs"
    using Suc.prems j by (simp add: mset_swap_cells)
  finally show ?case .
qed

lemma mset_assignRoles:
  "mset (assignRoles rnd n) =
     mset ([BLACK_HAT] @ (if n > 5 then [WHITE_HAT] else [])
           @ replicate (nat (n - (if n > 5 then 2 else 1))) CIVILIAN)"
  by (simp add: assignRoles_def WHITE_HAT_MIN_PLAYERS_def Let_def mset_shuffleFrom)

lemma count_list_mset: "count_list xs x = count (mset xs) x"
  by (induction xs) auto

text \<open>
  C1 (as amended). For every player count \<open>n\<close> with \<open>4 \<le> n < 8\<close> and every run of the
  shuffle, \<open>assignRoles\<close> returns \<open>n\<close> roles with exactly one \<open>BLACK_HAT\<close>, exactly one
  \<open>WHITE_HAT\<close> when \<open>n > 5\<close> and none otherwise, and \<open>CIVILIAN\<close> everywhere else.
\<close>

theorem assignRoles_counts:
  assumes "4 \<le> n" and "n < 8"
  shows "length (assignRoles rnd n) = nat n
       \<and> count_list (assignRoles rnd n) BLACK_HAT = 1
       \<and> count_list (assignRoles rnd n) WHITE_HAT = (if n > 5 then 1 else 0)
       \<and> count_list (assignRoles rnd n) CIVILIAN = nat n - 1 - (if n > 5 then 1 else 0)"
proof -
  have len: "length (assignRoles rnd n) = size (mset (assignRoles rnd n))"
    by simp
  show ?thesis
    unfolding len count_list_mset mset_assignRoles using assms by auto
qed

theorem assignRoles_counts_witness:
  "(4::int) \<le> 7 \<and> (7::int) < 8
   \<and> length (assignRoles (\<lambda>i. 3) 7) = 7
   \<and> count_list (assignRoles (\<lambda>i. 3) 7) BLACK_HAT = 1
   \<and> count_list (assignRoles (\<lambda>i. 3) 7) WHITE_HAT = 1
   \<and> count_list (assignRoles (\<lambda>i. 3) 7) CIVILIAN = 5"
  using assignRoles_counts [of 7 "\<lambda>i. 3"] by simp

text \<open>
  C1 as stated fails at six players: the threshold test is
  \<open>playerCount > WHITE_HAT_MIN_PLAYERS - 1\<close>, that is \<open>playerCount > 5\<close>, so a game of six
  has a \<open>WHITE_HAT\<close> although \<open>6 > 6\<close> is false.
\<close>

theorem assignRoles_six_counterexample:
  "count_list (assignRoles (\<lambda>i. 0) 6) WHITE_HAT = 1 \<and> \<not> (6::int) > 6"
  by (simp add: assignRoles_def WHITE_HAT_MIN_PLAYERS_def Let_def swap_def
      numeral_eq_Suc)

subsection \<open>Storage facts\<close>

lemma getGameState_endGame [simp]: "getGameState (endGame w rid state side) rid = None"
  by (simp add: endGame_def Let_def getGameState_def deleteGameState_def setRoomStatus_def
      split: option.splits)

lemma db_rooms_endGame:
  "db_rooms (endGame w rid state side) = map (withStatus rid FINISHED) (db_rooms w)"
  by (simp add: endGame_def Let_def deleteGameState_def setRoomStatus_def
      split: option.splits)

lemma db_players_endGame [simp]: "db_players (endGame w rid state side) = db_players w"
  by (simp add: endGame_def Let_def deleteGameState_def setRoomStatus_def
      split: option.splits)

lemma db_players_startNextRound [simp]:
  "db_players (startNextRound w rid state draw rnd) = db_players w"
  by (simp add: startNextRound_def Let_def setGameState_def split: option.splits)

lemma db_players_setGameState [simp]: "db_players (setGameState w state) = db_players w"
  by (simp add: setGameState_def)

lemma db_players_setRoundPhase [simp]: "db_players (setRoundPhase w i ph) = db_players w"
  by (simp add: setRoundPhase_def)

lemma db_players_roundPhase [simp]:
  "db_players (case x of None \<Rightarrow> w | Some r \<Rightarrow> setRoundPhase w r ph) = db_players w"
  by (cases x) simp_all


lemma endGame_ends:
  "getGameState (endGame w rid state side) rid = None
   \<and> (\<forall>r \<in> set (db_rooms (endGame w rid state side)).
          room_id r = rid \<longrightarrow> room_status r = FINISHED)"
proof -
  have "room_status r = FINISHED"
    if "r \<in> set (map (withStatus rid FINISHED) (db_rooms w))" and "room_id r = rid" for r
  proof -
    from that(1) obtain q where "r = withStatus rid FINISHED q"
      by auto
    with that(2) show ?thesis
      by (cases "room_id q = rid") (simp_all add: withStatus_def)
  qed
  then show ?thesis
    by (simp add: db_rooms_endGame)
qed

lemma mset_sortRandom: "mset (sortRandom rnd xs) = mset xs"
proof (induction xs)
  case Nil
  then show ?case by simp
next
  case (Cons x xs)
  define ys where "ys = sortRandom rnd xs"
  define k where "k = rnd (length xs) mod (length ys + 1)"
  have "mset (take k ys) + mset (drop k ys) = mset ys"
    by (metis append_take_drop_id mset_append)
  then show ?case
    using Cons.IH by (simp add: Let_def ys_def k_def)
qed

subsection \<open>The tally loop computes the specification's tally\<close>

lemma ordinaryKey_proto: "ordinaryKey key \<Longrightarrow> key \<noteq> ''__proto__''"
  by (auto simp: ordinaryKey_def inherited_def)

lemma tallyStep_ordinary:
  "ordinaryKey t \<Longrightarrow>
     tallyStep acc t =
       AList.update t (orZeroPlusOne (case map_of acc t of None \<Rightarrow> JSUndefined | Some v \<Rightarrow> v)) acc"
  by (auto simp: tallyStep_def setProperty_def getProperty_def ordinaryKey_def inherited_def
      split: option.splits if_splits)

lemma map_of_foldl_tally:
  assumes "\<forall>t \<in> set ts. ordinaryKey t" and "\<forall>k v. map_of acc k = Some v \<longrightarrow> (\<exists>c. v = JSNumber c)"
  shows "map_of (foldl tallyStep acc ts) t =
     (if count_list ts t = 0 then map_of acc t
      else Some (JSNumber ((case map_of acc t of Some (JSNumber c) \<Rightarrow> c | _ \<Rightarrow> 0) + count_list ts t)))"
  using assms
proof (induction ts arbitrary: acc)
  case Nil
  then show ?case by simp
next
  case (Cons a ts)
  have a: "ordinaryKey a" using Cons.prems by simp
  let ?acc = "tallyStep acc a"
  have step: "map_of ?acc k = (if k = a then Some (JSNumber ((case map_of acc a of Some (JSNumber c) \<Rightarrow> c | _ \<Rightarrow> 0) + 1)) else map_of acc k)" for k
  proof (cases "map_of acc a")
    case None
    then show ?thesis by (simp add: tallyStep_ordinary [OF a] update_conv')
  next
    case (Some v)
    with Cons.prems(2) obtain c where "v = JSNumber c" by blast
    with Some show ?thesis by (simp add: tallyStep_ordinary [OF a] update_conv')
  qed
  have inv: "\<forall>k v. map_of ?acc k = Some v \<longrightarrow> (\<exists>c. v = JSNumber c)"
    using Cons.prems(2) by (auto simp: step)
  have rest: "\<forall>t \<in> set ts. ordinaryKey t" using Cons.prems by simp
  show ?case
    using Cons.IH [OF rest inv] by (simp add: step)
qed


lemma votesFor_count: "votesFor vs t = count_list (map snd vs) t"
  by (induction vs) (auto simp: votesFor_def)

lemma distinct_foldl_tally:
  "distinct (map fst acc) \<Longrightarrow> distinct (map fst (foldl tallyStep acc ts))"
  by (induction ts arbitrary: acc) (simp_all add: tallyStep_def setProperty_def distinct_update)

lemma distinct_countVotes: "distinct (map fst (countVotes vs))"
  by (simp add: countVotes_def distinct_foldl_tally)

lemma map_of_countVotes:
  assumes "\<forall>t \<in> snd ` set vs. ordinaryKey t"
  shows "map_of (countVotes vs) t =
           (if t \<in> snd ` set vs then Some (JSNumber (votesFor vs t)) else None)"
proof -
  have "\<forall>t \<in> set (map snd vs). ordinaryKey t"
    using assms by simp
  then have "map_of (foldl tallyStep [] (map snd vs)) t =
     (if count_list (map snd vs) t = 0 then map_of [] t
      else Some (JSNumber ((case map_of [] t of Some (JSNumber c) \<Rightarrow> c | _ \<Rightarrow> 0) + count_list (map snd vs) t)))"
    by (rule map_of_foldl_tally) simp
  then show ?thesis
    by (auto simp: countVotes_def votesFor_count count_list_0_iff)
qed

lemma set_countVotes:
  assumes "\<forall>t \<in> snd ` set vs. ordinaryKey t"
  shows "set (countVotes vs) = {(t, JSNumber (votesFor vs t)) | t. t \<in> snd ` set vs}"
proof -
  have "(t, c) \<in> set (countVotes vs) \<longleftrightarrow> map_of (countVotes vs) t = Some c" for t c
    using distinct_countVotes by (metis map_of_eq_Some_iff)
  then show ?thesis
    by (force simp: map_of_countVotes [OF assms] split: if_splits)
qed

lemma foldr_mathMax:
  "\<forall>v \<in> set xs. \<exists>c. v = JSNumber c \<Longrightarrow>
     foldr mathMax (map toNumber xs) (Some 0) = Some (foldr max (map (the \<circ> toNumber) xs) 0)"
  by (induction xs) (auto simp: mathMax_def)

lemma foldr_max_upper: "x \<in> set xs \<Longrightarrow> x \<le> foldr max xs (0::nat)"
  by (induction xs) (auto simp: max_def)

lemma foldr_max_mem: "foldr max xs (0::nat) = 0 \<or> foldr max xs 0 \<in> set xs"
  by (induction xs) (auto simp: max_def)

lemma votesFor_pos: "t \<in> snd ` set vs \<Longrightarrow> 0 < votesFor vs t"
proof -
  assume "t \<in> snd ` set vs"
  then have "t \<in> set (map snd vs)" by simp
  then have "count_list (map snd vs) t \<noteq> 0" by (simp only: count_list_0_iff not_not)
  then show ?thesis by (simp add: votesFor_count)
qed

lemma maxVotesOf_ordinary:
  assumes "\<forall>t \<in> snd ` set vs. ordinaryKey t"
  shows "\<exists>m. maxVotesOf (countVotes vs) = Some m
            \<and> (\<forall>u \<in> snd ` set vs. votesFor vs u \<le> m)
            \<and> (m = 0 \<or> m \<in> votesFor vs ` snd ` set vs)"
proof -
  let ?xs = "map snd (countVotes vs)"
  have nums: "\<forall>v \<in> set ?xs. \<exists>c. v = JSNumber c"
    by (auto simp: set_countVotes [OF assms])
  let ?m = "foldr max (map (the \<circ> toNumber) ?xs) 0"
  have eq: "maxVotesOf (countVotes vs) = Some ?m"
    unfolding maxVotesOf_def using foldr_mathMax [OF nums] by (simp add: comp_def)
  have snds: "set (map (the \<circ> toNumber) ?xs) = votesFor vs ` snd ` set vs"
    by (force simp: set_countVotes [OF assms])
  have up: "votesFor vs u \<le> ?m" if "u \<in> snd ` set vs" for u
    using that snds by (intro foldr_max_upper) auto
  have mem: "?m = 0 \<or> ?m \<in> votesFor vs ` snd ` set vs"
    using foldr_max_mem [of "map (the \<circ> toNumber) ?xs"] snds by auto
  from eq up mem show ?thesis
    by blast
qed

lemma set_topTargets:
  assumes "\<forall>t \<in> snd ` set vs. ordinaryKey t"
  shows "set (topTargetsOf (countVotes vs)) = leaders vs"
proof -
  from maxVotesOf_ordinary [OF assms]
  obtain m where eq: "maxVotesOf (countVotes vs) = Some m"
    and ball: "\<forall>u \<in> snd ` set vs. votesFor vs u \<le> m"
    and mem: "m = 0 \<or> m \<in> votesFor vs ` snd ` set vs"
    by blast
  from ball have up: "votesFor vs u \<le> m" if "u \<in> snd ` set vs" for u
    using that by blast
  have top: "set (topTargetsOf (countVotes vs)) = {t \<in> snd ` set vs. votesFor vs t = m}"
    by (force simp: topTargetsOf_def set_countVotes [OF assms] eq)
  show ?thesis
  proof (intro set_eqI iffI)
    fix t assume "t \<in> set (topTargetsOf (countVotes vs))"
    then show "t \<in> leaders vs"
      using up by (auto simp: top leaders_def)
  next
    fix t assume t: "t \<in> leaders vs"
    then have tin: "t \<in> snd ` set vs" and ge: "\<forall>u \<in> snd ` set vs. votesFor vs u \<le> votesFor vs t"
      by (auto simp: leaders_def)
    have "m \<le> votesFor vs t"
      using mem ge by auto
    with up [OF tin] have "votesFor vs t = m" by simp
    with tin show "t \<in> set (topTargetsOf (countVotes vs))"
      by (simp add: top)
  qed
qed

lemma distinct_topTargets: "distinct (topTargetsOf (countVotes vs))"
  unfolding topTargetsOf_def using distinct_countVotes [of vs]
  by (simp add: distinct_map_filter)

lemma length_topTargets:
  "\<forall>t \<in> snd ` set vs. ordinaryKey t \<Longrightarrow>
     length (topTargetsOf (countVotes vs)) = card (leaders vs)"
  using distinct_card [OF distinct_topTargets, of vs] by (simp add: set_topTargets)


text \<open>A string that the tally stores starts with the text of a function.\<close>

lemma set_alist_update: "set (AList.update k v al) \<subseteq> insert (k, v) (set al)"
  by (induction al) auto

lemma foldl_tally_strings:
  assumes "\<forall>k s. (k, JSString s) \<in> set acc \<longrightarrow> take 9 s = ''function ''"
    and "\<forall>k v. (k, v) \<in> set acc \<longrightarrow> (\<exists>c. v = JSNumber c) \<or> (\<exists>s. v = JSString s)"
    and "distinct (map fst acc)"
  shows "(\<forall>k s. (k, JSString s) \<in> set (foldl tallyStep acc ts) \<longrightarrow> take 9 s = ''function '')
       \<and> (\<forall>k v. (k, v) \<in> set (foldl tallyStep acc ts) \<longrightarrow> (\<exists>c. v = JSNumber c) \<or> (\<exists>s. v = JSString s))"
  using assms
proof (induction ts arbitrary: acc)
  case Nil
  then show ?case by simp
next
  case (Cons a ts)
  let ?new = "orZeroPlusOne (getProperty acc a)"
  have v: "(\<exists>c. ?new = JSNumber c) \<or> (\<exists>s. ?new = JSString s \<and> (a \<noteq> ''__proto__'' \<longrightarrow> take 9 s = ''function ''))"
  proof (cases "map_of acc a")
    case None
    then show ?thesis
      by (cases "inherited a") (auto simp: getProperty_def nativeSource_def inherited_def split: if_splits option.splits)
  next
    case (Some x)
    then have mem: "(a, x) \<in> set acc" by (rule map_of_SomeD)
    with Cons.prems(2) consider c where "x = JSNumber c" | s where "x = JSString s" by blast
    then show ?thesis
    proof cases
      case 1
      with Some show ?thesis by (simp add: getProperty_def)
    next
      case 2
      with mem Cons.prems(1) have s: "take 9 s = ''function ''" by blast
      then have "length (take 9 s) = 9" by simp
      then have len: "9 \<le> length s" by simp
      with s have "s \<noteq> []" and "take 9 (s @ ''1'') = ''function ''" by auto
      with Some 2 show ?thesis by (simp add: getProperty_def)
    qed
  qed
  have sub: "set (tallyStep acc a) \<subseteq> set acc \<union> (if a = ''__proto__'' then {} else {(a, ?new)})"
    using set_alist_update [of a ?new acc] by (auto simp: tallyStep_def setProperty_def)
  have new: "(k, x) \<in> set acc \<or> (a \<noteq> ''__proto__'' \<and> x = ?new)"
    if "(k, x) \<in> set (tallyStep acc a)" for k x
    using sub that by (auto split: if_splits)
  have p1: "\<forall>k s. (k, JSString s) \<in> set (tallyStep acc a) \<longrightarrow> take 9 s = ''function ''"
  proof (intro allI impI)
    fix k s assume "(k, JSString s) \<in> set (tallyStep acc a)"
    from new [OF this] show "take 9 s = ''function ''"
      using v Cons.prems(1) by auto
  qed
  have p2: "\<forall>k v. (k, v) \<in> set (tallyStep acc a) \<longrightarrow> (\<exists>c. v = JSNumber c) \<or> (\<exists>s. v = JSString s)"
  proof (intro allI impI)
    fix k x assume "(k, x) \<in> set (tallyStep acc a)"
    from new [OF this] show "(\<exists>c. x = JSNumber c) \<or> (\<exists>s. x = JSString s)"
      using v Cons.prems(2) by auto
  qed
  have p3: "distinct (map fst (tallyStep acc a))"
    using Cons.prems(3) by (simp add: tallyStep_def setProperty_def distinct_update)
  show ?case
    using Cons.IH [OF p1 p2 p3] by simp
qed

lemma countVotes_strings:
  "(target, JSString s) \<in> set (countVotes vs) \<Longrightarrow> take 9 s = ''function ''"
  using foldl_tally_strings [of "[]" "map snd vs"] by (simp add: countVotes_def)

subsection \<open>Facts about the example worlds\<close>

lemma votingWorld_game:
  "getGameState (votingWorld ps vs) ''room1'' = Some (votingState (map player_id ps) vs)"
  by (simp add: votingWorld_def demoWorld_def getGameState_def)

lemma votingState_votes: "votes (votingState order vs) = vs"
  by (simp add: votingState_def demoState_def)

lemma demo_ordinary:
  "\<forall>t \<in> snd ` set tieVotes. ordinaryKey t"
  "\<forall>t \<in> snd ` set blackHatVotes. ordinaryKey t"
  "\<forall>t \<in> snd ` set whiteHatVotes. ordinaryKey t"
  "\<forall>t \<in> snd ` set ghostVotes. ordinaryKey t"
  "\<forall>t \<in> snd ` set civilianVotes. ordinaryKey t"
  by (simp_all add: ordinaryKey_def inherited_def prototypeMethods_def tieVotes_def
      blackHatVotes_def whiteHatVotes_def ghostVotes_def civilianVotes_def)

lemma demo_topTargets:
  "topTargetsOf (countVotes tieVotes) = [''p2'', ''p1'']"
  "topTargetsOf (countVotes blackHatVotes) = [''p1'']"
  "topTargetsOf (countVotes whiteHatVotes) = [''p2'']"
  "topTargetsOf (countVotes ghostVotes) = [''ghost'']"
  "topTargetsOf (countVotes civilianVotes) = [''p2'']"
  by (simp_all add: topTargetsOf_def countVotes_def tallyStep_def maxVotesOf_def mathMax_def
      getProperty_def setProperty_def inherited_def prototypeMethods_def tieVotes_def
      blackHatVotes_def whiteHatVotes_def ghostVotes_def civilianVotes_def)

lemma demo_leaders:
  "card (leaders tieVotes) = 2"
  "leaders blackHatVotes = {''p1''}"
  "leaders whiteHatVotes = {''p2''}"
  "leaders ghostVotes = {''ghost''}"
  "leaders civilianVotes = {''p2''}"
  using length_topTargets [OF demo_ordinary(1)] set_topTargets [OF demo_ordinary(2)]
    set_topTargets [OF demo_ordinary(3)] set_topTargets [OF demo_ordinary(4)]
    set_topTargets [OF demo_ordinary(5)]
  by (simp_all add: demo_topTargets)



lemma demo_findPlayer:
  "findPlayer (votingWorld fourPlayers vs) ''p1'' = Some (demoPlayer ''p1'' BLACK_HAT True)"
  "findPlayer (votingWorld fourPlayers vs) ''p2'' = Some (demoPlayer ''p2'' CIVILIAN True)"
  "findPlayer (votingWorld sevenPlayers vs) ''p2'' = Some (demoPlayer ''p2'' WHITE_HAT True)"
  "findPlayer (votingWorld fourPlayers vs) ''ghost'' = None"
  by (simp_all add: findPlayer_def votingWorld_def demoWorld_def fourPlayers_def
      sevenPlayers_def demoPlayer_def)

lemma demo_roles:
  "player_role (demoPlayer pid r b) = Some r"
  by (simp add: demoPlayer_def)

lemma demo_civilians_win:
  "checkWinConditions (markInactive (votingWorld fourPlayers vs) ''p1'') ''room1'' (Some s)
     = GameOver CIVILIAN"
  by (simp add: checkWinConditions_def activePlayersOf_def markInactive_def deactivate_def
      votingWorld_def demoWorld_def fourPlayers_def demoPlayer_def)


lemma demo_first_vote:
  "submitVote (votingWorld fourPlayers []) ''room1'' ''p1'' ''''
     = (VoteAccepted False,
        (votingWorld fourPlayers [(''p1'', '''')])\<lparr>db_votes := [(0, ''p1'', '''')]\<rparr>)"
  by (simp add: submitVote_def votingWorld_def demoWorld_def votingState_def demoState_def
      getGameState_def setGameState_def truthy_def findRound_def Let_def fourPlayers_def
      demoPlayer_def)

lemma guessWorld_game: "getGameState guessWorld ''room1'' = Some guessState"
  by (simp add: guessWorld_def demoWorld_def getGameState_def)

lemma guessState_phase: "phase guessState = GUESSING"
  by (simp add: guessState_def demoState_def)

lemma guessWorld_pair: "findWordPair guessWorld (wordPairId guessState) = Some (demoPair True)"
  by (simp add: guessWorld_def guessState_def demoWorld_def demoState_def demoPair_def
      findWordPair_def)

lemma guessWorld_continues:
  "checkWinConditions guessWorld ''room1'' (Some guessState) = GameContinues"
  by (simp add: checkWinConditions_def activePlayersOf_def guessWorld_def demoWorld_def
      demoPlayer_def)

lemma lowered_word: "jsToLowerCase (jsTrim (wordA (demoPair b))) = [CHR ''m'', CHR 0xE8, CHR ''o'']"
  by (simp add: demoPair_def jsTrim_def jsToLowerCase_def jsLowerChar_def isWhiteSpace_def)

lemma lowered_guesses:
  "jsToLowerCase (jsTrim [CHR '' '', CHR '' '', CHR ''M'', CHR 0xE8, CHR ''o'', CHR '' ''])
     = [CHR ''m'', CHR 0xE8, CHR ''o'']"
  "jsToLowerCase (jsTrim [CHR ''m'', CHR 0xE8, CHR ''o'']) = [CHR ''m'', CHR 0xE8, CHR ''o'']"
  "jsToLowerCase (jsTrim [CHR ''M'', CHR 0xC8, CHR ''O'']) = [CHR ''m'', CHR 0xE8, CHR ''o'']"
  "jsToLowerCase (jsTrim [CHR ''M'', CHR 0xE8, CHR ''o'']) = [CHR ''m'', CHR 0xE8, CHR ''o'']"
  "jsToLowerCase (jsTrim ''Meo'') = ''meo''"
  "jsToLowerCase (jsTrim ''Cho'') = ''cho''"
  by (simp_all add: jsTrim_def jsToLowerCase_def jsLowerChar_def isWhiteSpace_def)

subsection \<open>Vote resolution\<close>


lemma getRandomWordPair_markInactive [simp]:
  "getRandomWordPair (markInactive w t) draw = getRandomWordPair w draw"
  by (simp add: getRandomWordPair_def markInactive_def)




text \<open>
  Two behaviours that C2 as amended leaves out. First, a target named like a property
  of \<^verbatim>\<open>Object.prototype\<close>. One vote for \<^verbatim>\<open>toString\<close> beside three countable votes, two of
  them for \<open>p1\<close>: the entry of \<^verbatim>\<open>toString\<close> is a string, the maximum is \<^verbatim>\<open>NaN\<close>, no target
  equals it, and \<open>resolveVotes\<close> throws although \<open>p1\<close> alone holds the most votes. Three
  votes for \<^verbatim>\<open>__proto__\<close> beside one for \<open>p1\<close>: the three are dropped and \<open>p1\<close> is voted
  out with one vote.
\<close>

lemma resolveVotes_inherited_name:
  "leaders methodVotes = {''p1''}
   \<and> countVotes methodVotes
      = [(''p2'', JSNumber 1), (''p1'', JSNumber 2),
         (''toString'', JSString ''function toString() { [native code] }1'')]
   \<and> maxVotesOf (countVotes methodVotes) = None
   \<and> resolveVotes (votingWorld fourPlayers methodVotes) ''room1'' 0 (\<lambda>i. 0)
      = (Inl EliminatedPlayerNotFound, votingWorld fourPlayers methodVotes)
   \<and> leaders protoVotes = {''__proto__''}
   \<and> countVotes protoVotes = [(''p1'', JSNumber 1)]
   \<and> fst (resolveVotes (votingWorld fourPlayers protoVotes) ''room1'' 0 (\<lambda>i. 0))
      = Inr \<lparr>eliminatedPlayerId = Some ''p1'', eliminatedRole = Some BLACK_HAT,
              isWhiteHat = False, gameOver = True, winner = Some CIVILIAN\<rparr>"
proof -
  have counts: "countVotes methodVotes
      = [(''p2'', JSNumber 1), (''p1'', JSNumber 2),
         (''toString'', JSString ''function toString() { [native code] }1'')]"
    "countVotes protoVotes = [(''p1'', JSNumber 1)]"
    by (simp_all add: countVotes_def tallyStep_def getProperty_def setProperty_def
        inherited_def prototypeMethods_def nativeSource_def methodVotes_def protoVotes_def)
  have leaders: "leaders methodVotes = {''p1''}" "leaders protoVotes = {''__proto__''}"
    by (auto simp: leaders_def votesFor_def methodVotes_def protoVotes_def)
  have nan: "maxVotesOf (countVotes methodVotes) = None"
    unfolding counts by (simp add: maxVotesOf_def mathMax_def)
  have thrown: "resolveVotes (votingWorld fourPlayers methodVotes) ''room1'' 0 (\<lambda>i. 0)
      = (Inl EliminatedPlayerNotFound, votingWorld fourPlayers methodVotes)"
    by (simp add: resolveVotes_def votingWorld_game votingState_votes counts topTargetsOf_def
        maxVotesOf_def mathMax_def nthOpt_def)
  have dropped: "fst (resolveVotes (votingWorld fourPlayers protoVotes) ''room1'' 0 (\<lambda>i. 0))
      = Inr \<lparr>eliminatedPlayerId = Some ''p1'', eliminatedRole = Some BLACK_HAT,
              isWhiteHat = False, gameOver = True, winner = Some CIVILIAN\<rparr>"
    by (simp add: resolveVotes_def votingWorld_game votingState_votes counts topTargetsOf_def
        maxVotesOf_def mathMax_def nthOpt_def demo_findPlayer demo_roles demo_civilians_win)
  from counts leaders nan thrown dropped show ?thesis
    by simp
qed

text \<open>
  Second, an elimination after which the game goes on while no word pair is active. The
  player's row is made inactive, but \<open>startNextRound\<close> returns before it stores the state,
  so the stored eliminated list does not get the player and the phase stays \<open>VOTING\<close>.
\<close>

lemma resolveVotes_lost_elimination:
  "fst (resolveVotes
         (demoWorld fourPlayers [demoPair False]
            (votingState (map player_id fourPlayers) civilianVotes)) ''room1'' 0 (\<lambda>i. 0))
     = Inr \<lparr>eliminatedPlayerId = Some ''p2'', eliminatedRole = Some CIVILIAN,
             isWhiteHat = False, gameOver = False, winner = None\<rparr>
   \<and> findPlayer
       (snd (resolveVotes
         (demoWorld fourPlayers [demoPair False]
            (votingState (map player_id fourPlayers) civilianVotes)) ''room1'' 0 (\<lambda>i. 0)))
       ''p2''
     = Some (demoPlayer ''p2'' CIVILIAN False)
   \<and> map_option eliminatedPlayers
       (getGameState
         (snd (resolveVotes
           (demoWorld fourPlayers [demoPair False]
              (votingState (map player_id fourPlayers) civilianVotes)) ''room1'' 0 (\<lambda>i. 0)))
         ''room1'')
     = Some []
   \<and> map_option phase
       (getGameState
         (snd (resolveVotes
           (demoWorld fourPlayers [demoPair False]
              (votingState (map player_id fourPlayers) civilianVotes)) ''room1'' 0 (\<lambda>i. 0)))
         ''room1'')
     = Some VOTING"
proof -
  let ?w = "demoWorld fourPlayers [demoPair False]
              (votingState (map player_id fourPlayers) civilianVotes)"
  have game: "getGameState ?w ''room1''
      = Some (votingState (map player_id fourPlayers) civilianVotes)"
    by (simp add: demoWorld_def getGameState_def)
  have player: "findPlayer ?w ''p2'' = Some (demoPlayer ''p2'' CIVILIAN True)"
    by (simp add: findPlayer_def demoWorld_def fourPlayers_def demoPlayer_def)
  have continues: "checkWinConditions (markInactive ?w ''p2'') ''room1'' (Some s)
      = GameContinues" for s
    by (simp add: checkWinConditions_def activePlayersOf_def markInactive_def deactivate_def
        demoWorld_def fourPlayers_def demoPlayer_def)
  have none: "getRandomWordPair ?w 0 = None"
    by (simp add: getRandomWordPair_def demoWorld_def demoPair_def)
  have r: "resolveVotes ?w ''room1'' 0 (\<lambda>i. 0)
      = (Inr \<lparr>eliminatedPlayerId = Some ''p2'', eliminatedRole = Some CIVILIAN,
              isWhiteHat = False, gameOver = False, winner = None\<rparr>,
         markInactive ?w ''p2'')"
    by (simp add: resolveVotes_def game votingState_votes demo_topTargets nthOpt_def player
        demo_roles continues startNextRound_def none Let_def)
  show ?thesis
    unfolding r
    by (simp add: markInactive_def deactivate_def findPlayer_def getGameState_def demoWorld_def
        fourPlayers_def demoPlayer_def votingState_def demoState_def)
qed

subsection \<open>Win conditions\<close>

text \<open>
  C3. Whenever the win check has a game state to work with (the one passed in, as after
  an elimination, or the stored one), its answer is read off the active players of the
  room: \<open>BLACK_HAT\<close> wins when at most two are active and one of them is the black hat,
  whatever the roles of the others; otherwise \<open>CIVILIAN\<close> wins when no active player is
  the black hat; otherwise the game continues.
\<close>

theorem checkWinConditions_decides:
  assumes "state = None \<longrightarrow> getGameState w rid \<noteq> None"
  shows "checkWinConditions w rid state =
     (if length (activePlayersOf w rid) \<le> 2
         \<and> (\<exists>p \<in> set (activePlayersOf w rid). player_role p = Some BLACK_HAT)
      then GameOver BLACK_HAT
      else if \<not> (\<exists>p \<in> set (activePlayersOf w rid). player_role p = Some BLACK_HAT)
      then GameOver CIVILIAN
      else GameContinues)"
  using assms by (cases state) (auto simp: checkWinConditions_def Let_def list_ex_iff)

text \<open>
  The witness of C3, on the stored state: black hat and white hat left; white hat and
  two civilians left; black hat and two civilians left.
\<close>

theorem checkWinConditions_decides_witness:
  "checkWinConditions
     (demoWorld [demoPlayer ''p1'' BLACK_HAT True, demoPlayer ''p2'' WHITE_HAT True,
                 demoPlayer ''p3'' CIVILIAN False] [] (demoState VOTING [] 0 [] []))
     ''room1'' None = GameOver BLACK_HAT
   \<and> checkWinConditions
     (demoWorld [demoPlayer ''p1'' BLACK_HAT False, demoPlayer ''p2'' WHITE_HAT True,
                 demoPlayer ''p3'' CIVILIAN True, demoPlayer ''p4'' CIVILIAN True] []
        (demoState VOTING [] 0 [] []))
     ''room1'' None = GameOver CIVILIAN
   \<and> checkWinConditions
     (demoWorld [demoPlayer ''p1'' BLACK_HAT True, demoPlayer ''p2'' CIVILIAN True,
                 demoPlayer ''p3'' CIVILIAN True] [] (demoState VOTING [] 0 [] []))
     ''room1'' None = GameContinues"
  using
    checkWinConditions_decides [of None
      "demoWorld [demoPlayer ''p1'' BLACK_HAT True, demoPlayer ''p2'' WHITE_HAT True,
                 demoPlayer ''p3'' CIVILIAN False] [] (demoState VOTING [] 0 [] [])" "''room1''"]
    checkWinConditions_decides [of None
      "demoWorld [demoPlayer ''p1'' BLACK_HAT False, demoPlayer ''p2'' WHITE_HAT True,
                 demoPlayer ''p3'' CIVILIAN True, demoPlayer ''p4'' CIVILIAN True] []
        (demoState VOTING [] 0 [] [])" "''room1''"]
    checkWinConditions_decides [of None
      "demoWorld [demoPlayer ''p1'' BLACK_HAT True, demoPlayer ''p2'' CIVILIAN True,
                 demoPlayer ''p3'' CIVILIAN True] [] (demoState VOTING [] 0 [] [])" "''room1''"]
  by (simp add: demoWorld_def demoPlayer_def demoState_def getGameState_def activePlayersOf_def)

text \<open>
  C8. \<open>checkWinConditions\<close> never leaves through the return of the test
  \<open>!hasBlackHat && !hasWhiteHat\<close>, and deleting that test and its return gives a
  function with the same result on every input.
\<close>

theorem no_hat_branch_dead:
  "checkWinConditions_site w rid state \<noteq> AtNoBlackHatNoWhiteHat
   \<and> checkWinConditions w rid state = returnedAt (checkWinConditions_site w rid state)
   \<and> checkWinConditions_pruned w rid state = checkWinConditions w rid state"
  by (simp add: checkWinConditions_site_def checkWinConditions_def
      checkWinConditions_pruned_def Let_def)

subsection \<open>Voting\<close>

text \<open>
  C6. Re-voting is to be rejected and never to overwrite the recorded vote. The code does
  not deliver this when the recorded target is the empty string. In a round without
  votes, the first vote of \<open>p1\<close> names the empty string; it is accepted and stored. The
  second vote of \<open>p1\<close> in the same round is accepted as well and replaces the stored
  target: the guard \<^verbatim>\<open>if (state.votes[voterId])\<close> reads the stored empty string as "no
  vote", although its own message is that the voter has already voted.
\<close>

theorem submitVote_revote_overwrites:
  "fst (submitVote (votingWorld fourPlayers []) ''room1'' ''p1'' '''') = VoteAccepted False
   \<and> map_option votes
       (getGameState (snd (submitVote (votingWorld fourPlayers []) ''room1'' ''p1'' ''''))
          ''room1'')
     = Some [(''p1'', '''')]
   \<and> fst (submitVote (snd (submitVote (votingWorld fourPlayers []) ''room1'' ''p1'' ''''))
        ''room1'' ''p1'' ''p2'') = VoteAccepted False
   \<and> map_option votes
       (getGameState
          (snd (submitVote (snd (submitVote (votingWorld fourPlayers []) ''room1'' ''p1'' ''''))
                  ''room1'' ''p1'' ''p2''))
          ''room1'')
     = Some [(''p1'', ''p2'')]"
  unfolding demo_first_vote
  by (simp add: submitVote_def votingWorld_def demoWorld_def votingState_def demoState_def
      getGameState_def setGameState_def truthy_def findRound_def Let_def fourPlayers_def
      demoPlayer_def)


text \<open>
  What the guard does deliver: for a voter whose recorded target is a non-empty string,
  another \<open>submitVote\<close>, with any target, fails and changes nothing, so the vote map and
  every tally computed from it stay as they were.
\<close>

lemma submitVote_rejects_revote:
  assumes "getGameState w rid = Some state"
    and "map_of (votes state) voterId = Some recorded"
    and "recorded \<noteq> []"
  shows "snd (submitVote w rid voterId targetId) = w
       \<and> getGameState (snd (submitVote w rid voterId targetId)) rid = Some state
       \<and> (\<exists>m. fst (submitVote w rid voterId targetId) = VoteFailure m)
       \<and> (phase state = VOTING \<and> voterId \<notin> set (eliminatedPlayers state)
            \<longrightarrow> fst (submitVote w rid voterId targetId) = VoteFailure AlreadyVoted)"
  using assms by (simp add: submitVote_def truthy_def)

lemma submitVote_rejects_revote_example:
  "getGameState (demoWorld [] [] (demoState VOTING [''p1'', ''p2''] 2 [(''p1'', ''p2'')] []))
      ''room1'' = Some (demoState VOTING [''p1'', ''p2''] 2 [(''p1'', ''p2'')] [])
   \<and> map_of (votes (demoState VOTING [''p1'', ''p2''] 2 [(''p1'', ''p2'')] [])) ''p1''
       = Some ''p2''
   \<and> submitVote (demoWorld [] [] (demoState VOTING [''p1'', ''p2''] 2 [(''p1'', ''p2'')] []))
       ''room1'' ''p1'' ''p1''
     = (VoteFailure AlreadyVoted,
        demoWorld [] [] (demoState VOTING [''p1'', ''p2''] 2 [(''p1'', ''p2'')] []))"
  using submitVote_rejects_revote [of
      "demoWorld [] [] (demoState VOTING [''p1'', ''p2''] 2 [(''p1'', ''p2'')] [])"
      "''room1''" "demoState VOTING [''p1'', ''p2''] 2 [(''p1'', ''p2'')] []"
      "''p1''" "''p2''" "''p1''"]
  by (simp add: demoWorld_def demoState_def getGameState_def prod_eq_iff)

text \<open>
  C10. The re-vote guard tests the stored target for truthiness. In phase \<open>VOTING\<close>, for a
  voter who is not eliminated and whose round row exists, with a recorded target: when
  the recorded target is the empty string a further \<open>submitVote\<close> succeeds and the stored
  target becomes the new one; when it is not empty the call is rejected with the message
  that the voter has already voted, and nothing changes.
\<close>

theorem submitVote_guard_truthiness:
  assumes "getGameState w rid = Some state" and "roomId state = rid"
    and "phase state = VOTING"
    and "voterId \<notin> set (eliminatedPlayers state)"
    and "findRound w rid (roundNumber state) \<noteq> None"
    and "map_of (votes state) voterId = Some recorded"
  shows "(recorded = [] \<longrightarrow>
            (\<exists>allVoted. fst (submitVote w rid voterId targetId) = VoteAccepted allVoted)
          \<and> map_option (\<lambda>s. map_of (votes s) voterId)
               (getGameState (snd (submitVote w rid voterId targetId)) rid)
             = Some (Some targetId))
       \<and> (recorded \<noteq> [] \<longrightarrow>
            submitVote w rid voterId targetId = (VoteFailure AlreadyVoted, w))"
  using assms
  by (auto simp: submitVote_def truthy_def Let_def getGameState_def setGameState_def
      update_conv')

theorem submitVote_guard_truthiness_witness:
  "(\<exists>allVoted. fst (submitVote
        (demoWorld [] [] (demoState VOTING [''p1'', ''p2''] 2 [(''p1'', '''')] []))
        ''room1'' ''p1'' ''p2'') = VoteAccepted allVoted)
   \<and> map_option (\<lambda>s. map_of (votes s) ''p1'')
       (getGameState
          (snd (submitVote
                  (demoWorld [] [] (demoState VOTING [''p1'', ''p2''] 2 [(''p1'', '''')] []))
                  ''room1'' ''p1'' ''p2''))
          ''room1'')
     = Some (Some ''p2'')
   \<and> submitVote (demoWorld [] [] (demoState VOTING [''p1'', ''p2''] 2 [(''p1'', ''p2'')] []))
       ''room1'' ''p1'' ''p1''
     = (VoteFailure AlreadyVoted,
        demoWorld [] [] (demoState VOTING [''p1'', ''p2''] 2 [(''p1'', ''p2'')] []))"
  using
    submitVote_guard_truthiness [of
      "demoWorld [] [] (demoState VOTING [''p1'', ''p2''] 2 [(''p1'', '''')] [])"
      "''room1''" "demoState VOTING [''p1'', ''p2''] 2 [(''p1'', '''')] []"
      "''p1''" "''''" "''p2''"]
    submitVote_guard_truthiness [of
      "demoWorld [] [] (demoState VOTING [''p1'', ''p2''] 2 [(''p1'', ''p2'')] [])"
      "''room1''" "demoState VOTING [''p1'', ''p2''] 2 [(''p1'', ''p2'')] []"
      "''p1''" "''p2''" "''p1''"]
  by (simp add: demoWorld_def demoState_def getGameState_def findRound_def)

subsection \<open>Round advancement\<close>

text \<open>
  C7 (as amended). When the word-pair source yields a pair, \<open>startNextRound\<close> stores
  under the state's room id a state whose round number is one higher, whose phase is
  \<open>HINTING\<close>, whose clue list and vote map are empty, whose turn order is a rearrangement
  of exactly the ids of the room's active players, whose turn cursor is 0 and whose
  eliminated list is the one it was given.
\<close>

theorem startNextRound_advances:
  assumes "getRandomWordPair w draw = Some wordPair"
  shows "\<exists>state'.
           getGameState (startNextRound w rid state draw rnd) (roomId state) = Some state'
         \<and> roundNumber state' = roundNumber state + 1
         \<and> phase state' = HINTING
         \<and> clues state' = []
         \<and> votes state' = []
         \<and> mset (turnOrder state') = mset (map player_id (activePlayersOf w rid))
         \<and> currentTurnIndex state' = 0
         \<and> eliminatedPlayers state' = eliminatedPlayers state"
  using assms
  by (simp add: startNextRound_def Let_def getGameState_def setGameState_def mset_sortRandom)

theorem startNextRound_advances_witness:
  "getRandomWordPair
     (demoWorld [demoPlayer ''p1'' BLACK_HAT True, demoPlayer ''p2'' CIVILIAN False,
                 demoPlayer ''p3'' CIVILIAN True] [demoPair True]
        (demoState VOTING [''p1'', ''p2'', ''p3''] 3 [(''p1'', ''p2'')] [''p2'']))
     5 = Some (demoPair True)
   \<and> getGameState
       (startNextRound
          (demoWorld [demoPlayer ''p1'' BLACK_HAT True, demoPlayer ''p2'' CIVILIAN False,
                      demoPlayer ''p3'' CIVILIAN True] [demoPair True]
             (demoState VOTING [''p1'', ''p2'', ''p3''] 3 [(''p1'', ''p2'')] [''p2'']))
          ''room1''
          (demoState VOTING [''p1'', ''p2'', ''p3''] 3 [(''p1'', ''p2'')] [''p2''])
          5 (\<lambda>i. 0))
       ''room1''
     = Some ((demoState HINTING [''p1'', ''p3''] 0 [] [''p2''])\<lparr>roundNumber := 2\<rparr>)"
  using startNextRound_advances [of
      "demoWorld [demoPlayer ''p1'' BLACK_HAT True, demoPlayer ''p2'' CIVILIAN False,
                 demoPlayer ''p3'' CIVILIAN True] [demoPair True]
        (demoState VOTING [''p1'', ''p2'', ''p3''] 3 [(''p1'', ''p2'')] [''p2''])"
      5 "demoPair True" "''room1''"
      "demoState VOTING [''p1'', ''p2'', ''p3''] 3 [(''p1'', ''p2'')] [''p2'']" "\<lambda>i. 0"]
  by (simp add: startNextRound_def getRandomWordPair_def demoWorld_def demoPlayer_def
      demoPair_def demoState_def nthOpt_def Let_def getGameState_def setGameState_def
      activePlayersOf_def)

text \<open>
  C7 as stated fails when no word pair is active: the round number and the phase stay
  as they were.
\<close>

theorem startNextRound_no_pair_counterexample:
  "map_option roundNumber
     (getGameState
        (startNextRound
           (demoWorld [demoPlayer ''p1'' BLACK_HAT True] [demoPair False]
              (demoState VOTING [''p1''] 1 [] []))
           ''room1'' (demoState VOTING [''p1''] 1 [] []) 0 (\<lambda>i. 0))
        ''room1'')
   = Some (roundNumber (demoState VOTING [''p1''] 1 [] []))
   \<and> map_option phase
     (getGameState
        (startNextRound
           (demoWorld [demoPlayer ''p1'' BLACK_HAT True] [demoPair False]
              (demoState VOTING [''p1''] 1 [] []))
           ''room1'' (demoState VOTING [''p1''] 1 [] []) 0 (\<lambda>i. 0))
        ''room1'')
   = Some VOTING"
  by (simp add: startNextRound_def getRandomWordPair_def demoWorld_def demoPair_def
      demoState_def Let_def getGameState_def)

text \<open>
  C9. When the word-pair source yields no pair, \<open>startNextRound\<close> returns the world as
  it was. So a tie resolution (more than one top target in the tally, as when more than
  one ordinary target holds the maximum) answers without an error and leaves the world
  untouched, and so does a wrong guess of the white hat after which the game continues:
  the session stays in its phase at its round number.
\<close>

theorem startNextRound_without_pair:
  assumes "getRandomWordPair w draw = None"
  shows "startNextRound w rid state draw rnd = w
       \<and> (getGameState w rid = Some state
          \<and> 1 < length (topTargetsOf (countVotes (votes state)))
            \<longrightarrow> resolveVotes w rid draw rnd =
                  (Inr \<lparr>eliminatedPlayerId = None, eliminatedRole = None, isWhiteHat = False,
                        gameOver = False, winner = None\<rparr>, w))
       \<and> (getGameState w rid = Some state
          \<and> (\<forall>t \<in> snd ` set (votes state). ordinaryKey t)
          \<and> 1 < card (leaders (votes state))
            \<longrightarrow> resolveVotes w rid draw rnd =
                  (Inr \<lparr>eliminatedPlayerId = None, eliminatedRole = None, isWhiteHat = False,
                        gameOver = False, winner = None\<rparr>, w))
       \<and> (getGameState w rid = Some state \<and> phase state = GUESSING
          \<and> findWordPair w (wordPairId state) = Some wordPair
          \<and> toLowerCase (trim guess) \<noteq> toLowerCase (trim (wordA wordPair))
          \<and> checkWinConditions w rid (Some state) = GameContinues
            \<longrightarrow> submitWhiteHatGuess trim toLowerCase w rid playerId guess draw rnd =
                  (\<lparr>success = True, correct = False, correctWord = Some (wordA wordPair),
                    guess_gameOver = Some False, guess_winner = None\<rparr>, w))"
proof -
  have next_round: "startNextRound w rid s draw rnd = w" for s
    using assms by (simp add: startNextRound_def)
  have tie: "resolveVotes w rid draw rnd =
                  (Inr \<lparr>eliminatedPlayerId = None, eliminatedRole = None, isWhiteHat = False,
                        gameOver = False, winner = None\<rparr>, w)"
    if "getGameState w rid = Some state"
      and "1 < length (topTargetsOf (countVotes (votes state)))"
    using that by (simp add: next_round resolveVotes_def Let_def)
  have guess: "submitWhiteHatGuess trim toLowerCase w rid playerId guess draw rnd =
                  (\<lparr>success = True, correct = False, correctWord = Some (wordA wordPair),
                    guess_gameOver = Some False, guess_winner = None\<rparr>, w)"
    if "getGameState w rid = Some state" and "phase state = GUESSING"
      and "findWordPair w (wordPairId state) = Some wordPair"
      and "toLowerCase (trim guess) \<noteq> toLowerCase (trim (wordA wordPair))"
      and "checkWinConditions w rid (Some state) = GameContinues"
    using that by (simp add: next_round submitWhiteHatGuess_def Let_def)
  show ?thesis
    using next_round tie guess by (simp add: length_topTargets)
qed

theorem startNextRound_without_pair_witness:
  "getRandomWordPair
     (stuckWorld (demoState VOTING [''p1'', ''p2'', ''p3'', ''p4''] 4
        [(''p1'', ''p2''), (''p2'', ''p1''), (''p3'', ''p2''), (''p4'', ''p1'')] [])) 7 = None
   \<and> topTargetsOf (countVotes
        [(''p1'', ''p2''), (''p2'', ''p1''), (''p3'', ''p2''), (''p4'', ''p1'')])
      = [''p2'', ''p1'']
   \<and> ordinaryKey ''p1'' \<and> ordinaryKey ''p2''
   \<and> 1 < card (leaders [(''p1'', ''p2''), (''p2'', ''p1''), (''p3'', ''p2''), (''p4'', ''p1'')])
   \<and> resolveVotes
       (stuckWorld (demoState VOTING [''p1'', ''p2'', ''p3'', ''p4''] 4
          [(''p1'', ''p2''), (''p2'', ''p1''), (''p3'', ''p2''), (''p4'', ''p1'')] []))
       ''room1'' 7 (\<lambda>i. 0)
     = (Inr \<lparr>eliminatedPlayerId = None, eliminatedRole = None, isWhiteHat = False,
             gameOver = False, winner = None\<rparr>,
        stuckWorld (demoState VOTING [''p1'', ''p2'', ''p3'', ''p4''] 4
          [(''p1'', ''p2''), (''p2'', ''p1''), (''p3'', ''p2''), (''p4'', ''p1'')] []))
   \<and> submitWhiteHatGuess jsTrim jsToLowerCase
       (stuckWorld (demoState GUESSING [''p1'', ''p2'', ''p3'', ''p4'', ''p5''] 5 [] [''p5'']))
       ''room1'' ''p5'' ''Cho'' 7 (\<lambda>i. 0)
     = (\<lparr>success = True, correct = False,
         correctWord = Some [CHR ''M'', CHR 0xE8, CHR ''o''],
         guess_gameOver = Some False, guess_winner = None\<rparr>,
        stuckWorld (demoState GUESSING [''p1'', ''p2'', ''p3'', ''p4'', ''p5''] 5 [] [''p5'']))"
proof -
  let ?tie = "[(''p1'', ''p2''), (''p2'', ''p1''), (''p3'', ''p2''), (''p4'', ''p1'')]"
  let ?v = "demoState VOTING [''p1'', ''p2'', ''p3'', ''p4''] 4 ?tie []"
  let ?g = "demoState GUESSING [''p1'', ''p2'', ''p3'', ''p4'', ''p5''] 5 [] [''p5'']"
  have none: "getRandomWordPair (stuckWorld st) 7 = None" for st
    by (simp add: getRandomWordPair_def stuckWorld_def demoWorld_def demoPair_def)
  have top: "topTargetsOf (countVotes ?tie) = [''p2'', ''p1'']"
    using demo_topTargets(1) by (simp add: tieVotes_def)
  have ordinary: "ordinaryKey ''p1''" "ordinaryKey ''p2''"
    by (simp_all add: ordinaryKey_def inherited_def prototypeMethods_def)
  have tie: "1 < card (leaders ?tie)"
    using demo_leaders(1) by (simp add: tieVotes_def)
  have a: "getGameState (stuckWorld st) ''room1'' = Some st" for st
    by (simp add: stuckWorld_def demoWorld_def getGameState_def)
  have pair: "findWordPair (stuckWorld ?g) (wordPairId ?g) = Some (demoPair False)"
    by (simp add: stuckWorld_def demoWorld_def demoState_def demoPair_def findWordPair_def)
  have wrong: "jsToLowerCase (jsTrim ''Cho'') \<noteq> jsToLowerCase (jsTrim (wordA (demoPair False)))"
    by (simp add: lowered_word lowered_guesses)
  have cont: "checkWinConditions (stuckWorld ?g) ''room1'' (Some ?g) = GameContinues"
    by (simp add: checkWinConditions_def activePlayersOf_def stuckWorld_def demoWorld_def
        demoPlayer_def)
  have votes: "votes ?v = ?tie"
    by (simp add: demoState_def)
  have g: "phase ?g = GUESSING"
    by (simp add: demoState_def)
  from startNextRound_without_pair [OF none [of ?v], where rid = "''room1''"
       and state = ?v and rnd = "\<lambda>i. 0"] a top votes
  have r1: "resolveVotes (stuckWorld ?v) ''room1'' 7 (\<lambda>i. 0)
     = (Inr \<lparr>eliminatedPlayerId = None, eliminatedRole = None, isWhiteHat = False,
             gameOver = False, winner = None\<rparr>, stuckWorld ?v)"
    by simp
  from startNextRound_without_pair [OF none [of ?g], where rid = "''room1''"
       and state = ?g and rnd = "\<lambda>i. 0" and wordPair = "demoPair False"
       and toLowerCase = jsToLowerCase and trim = jsTrim and guess = "''Cho''"
       and playerId = "''p5''"] a pair wrong cont g
  have r2: "submitWhiteHatGuess jsTrim jsToLowerCase (stuckWorld ?g) ''room1'' ''p5'' ''Cho'' 7
       (\<lambda>i. 0)
     = (\<lparr>success = True, correct = False, correctWord = Some (wordA (demoPair False)),
         guess_gameOver = Some False, guess_winner = None\<rparr>, stuckWorld ?g)"
    by simp
  have r2': "submitWhiteHatGuess jsTrim jsToLowerCase (stuckWorld ?g) ''room1'' ''p5'' ''Cho'' 7
       (\<lambda>i. 0)
     = (\<lparr>success = True, correct = False,
         correctWord = Some [CHR ''M'', CHR 0xE8, CHR ''o''],
         guess_gameOver = Some False, guess_winner = None\<rparr>, stuckWorld ?g)"
    using r2 by (simp only: demoPair_def WordPair.simps)
  note n = none [of ?v]
  show ?thesis
    by (intro conjI) (fact n top ordinary tie r1 r2')+
qed

subsection \<open>The white hat's guess\<close>

text \<open>
  C4 (as amended). In phase \<open>GUESSING\<close>, with the row of the active word pair found,
  \<open>submitWhiteHatGuess\<close> succeeds and judges the guess correct exactly when the guess,
  trimmed and lower-cased, equals \<open>wordA\<close>, trimmed and lower-cased. A correct guess
  ends the game with winner \<open>WHITE_HAT\<close>, and its reply carries no \<open>correctWord\<close>. A wrong
  guess has the win conditions evaluated and, if the game continues, \<open>startNextRound\<close>
  run; its reply carries \<open>wordA\<close> as \<open>correctWord\<close> either way. Ending the game deletes
  the stored game of the room and sets the room's status to \<open>FINISHED\<close>.
\<close>

theorem submitWhiteHatGuess_outcomes:
  assumes "getGameState w rid = Some state"
    and "phase state = GUESSING"
    and "findWordPair w (wordPairId state) = Some wordPair"
  shows "let reply = submitWhiteHatGuess trim toLowerCase w rid playerId guess draw rnd;
             matches = (toLowerCase (trim guess) = toLowerCase (trim (wordA wordPair)))
         in success (fst reply)
          \<and> correct (fst reply) = matches
          \<and> (matches \<longrightarrow>
               reply = (\<lparr>success = True, correct = True, correctWord = None,
                          guess_gameOver = Some True, guess_winner = Some WHITE_HAT\<rparr>,
                        endGame w rid state WHITE_HAT))
          \<and> (\<not> matches \<longrightarrow>
               correctWord (fst reply) = Some (wordA wordPair)
             \<and> reply =
                 (case checkWinConditions w rid (Some state) of
                    GameOver side \<Rightarrow>
                      (\<lparr>success = True, correct = False, correctWord = Some (wordA wordPair),
                        guess_gameOver = Some True, guess_winner = Some side\<rparr>,
                       endGame w rid state side)
                  | GameContinues \<Rightarrow>
                      (\<lparr>success = True, correct = False, correctWord = Some (wordA wordPair),
                        guess_gameOver = Some False, guess_winner = None\<rparr>,
                       startNextRound w rid state draw rnd)))
          \<and> (\<forall>side. getGameState (endGame w rid state side) rid = None
                 \<and> (\<forall>r \<in> set (db_rooms (endGame w rid state side)).
                       room_id r = rid \<longrightarrow> room_status r = FINISHED))"
proof (cases "toLowerCase (trim guess) = toLowerCase (trim (wordA wordPair))")
  case True
  with assms have "submitWhiteHatGuess trim toLowerCase w rid playerId guess draw rnd =
      (\<lparr>success = True, correct = True, correctWord = None,
        guess_gameOver = Some True, guess_winner = Some WHITE_HAT\<rparr>,
       endGame w rid state WHITE_HAT)"
    by (simp add: submitWhiteHatGuess_def)
  with True endGame_ends show ?thesis
    by (simp add: Let_def)
next
  case False
  with assms have reply: "submitWhiteHatGuess trim toLowerCase w rid playerId guess draw rnd =
      (case checkWinConditions w rid (Some state) of
         GameOver side \<Rightarrow>
           (\<lparr>success = True, correct = False, correctWord = Some (wordA wordPair),
             guess_gameOver = Some True, guess_winner = Some side\<rparr>,
            endGame w rid state side)
       | GameContinues \<Rightarrow>
           (\<lparr>success = True, correct = False, correctWord = Some (wordA wordPair),
             guess_gameOver = Some False, guess_winner = None\<rparr>,
            startNextRound w rid state draw rnd))"
    by (simp add: submitWhiteHatGuess_def)
  have fields: "success (fst (submitWhiteHatGuess trim toLowerCase w rid playerId guess draw rnd))
      \<and> \<not> correct (fst (submitWhiteHatGuess trim toLowerCase w rid playerId guess draw rnd))
      \<and> correctWord (fst (submitWhiteHatGuess trim toLowerCase w rid playerId guess draw rnd))
          = Some (wordA wordPair)"
    unfolding reply by (cases "checkWinConditions w rid (Some state)") simp_all
  from False fields reply endGame_ends show ?thesis
    by (simp add: Let_def)
qed

text \<open>
  The witness of C4: the three spellings of the claim are judged correct against the
  stored word, the third ends the game for the white hat, and a wrong guess is answered
  with the stored word and the next round.
\<close>

theorem submitWhiteHatGuess_outcomes_witness:
  "getGameState guessWorld ''room1'' = Some guessState
   \<and> phase guessState = GUESSING
   \<and> findWordPair guessWorld (wordPairId guessState) = Some (demoPair True)
   \<and> wordA (demoPair True) = [CHR ''M'', CHR 0xE8, CHR ''o'']
   \<and> correct (fst (submitWhiteHatGuess jsTrim jsToLowerCase guessWorld ''room1'' ''p6''
        [CHR '' '', CHR '' '', CHR ''M'', CHR 0xE8, CHR ''o'', CHR '' ''] 0 (\<lambda>i. 0)))
   \<and> correct (fst (submitWhiteHatGuess jsTrim jsToLowerCase guessWorld ''room1'' ''p6''
        [CHR ''m'', CHR 0xE8, CHR ''o''] 0 (\<lambda>i. 0)))
   \<and> submitWhiteHatGuess jsTrim jsToLowerCase guessWorld ''room1'' ''p6''
        [CHR ''M'', CHR 0xC8, CHR ''O''] 0 (\<lambda>i. 0)
      = (\<lparr>success = True, correct = True, correctWord = None, guess_gameOver = Some True,
          guess_winner = Some WHITE_HAT\<rparr>,
         endGame guessWorld ''room1'' guessState WHITE_HAT)
   \<and> getGameState (endGame guessWorld ''room1'' guessState WHITE_HAT) ''room1'' = None
   \<and> submitWhiteHatGuess jsTrim jsToLowerCase guessWorld ''room1'' ''p6'' ''Meo'' 0 (\<lambda>i. 0)
      = (\<lparr>success = True, correct = False,
          correctWord = Some [CHR ''M'', CHR 0xE8, CHR ''o''],
          guess_gameOver = Some False, guess_winner = None\<rparr>,
         startNextRound guessWorld ''room1'' guessState 0 (\<lambda>i. 0))"
proof -
  note inst = submitWhiteHatGuess_outcomes [OF guessWorld_game guessState_phase guessWorld_pair,
      where trim = jsTrim and toLowerCase = jsToLowerCase and playerId = "''p6''"
        and draw = 0 and rnd = "\<lambda>i. 0"]
  have w: "wordA (demoPair True) = [CHR ''M'', CHR 0xE8, CHR ''o'']"
    by (simp add: demoPair_def)
  have 1: "correct (fst (submitWhiteHatGuess jsTrim jsToLowerCase guessWorld ''room1'' ''p6''
        [CHR '' '', CHR '' '', CHR ''M'', CHR 0xE8, CHR ''o'', CHR '' ''] 0 (\<lambda>i. 0)))"
    using inst [where guess = "[CHR '' '', CHR '' '', CHR ''M'', CHR 0xE8, CHR ''o'', CHR '' '']"]
    by (simp add: Let_def lowered_word lowered_guesses)
  have 2: "correct (fst (submitWhiteHatGuess jsTrim jsToLowerCase guessWorld ''room1'' ''p6''
        [CHR ''m'', CHR 0xE8, CHR ''o''] 0 (\<lambda>i. 0)))"
    using inst [where guess = "[CHR ''m'', CHR 0xE8, CHR ''o'']"]
    by (simp add: Let_def lowered_word lowered_guesses)
  have 3: "submitWhiteHatGuess jsTrim jsToLowerCase guessWorld ''room1'' ''p6''
        [CHR ''M'', CHR 0xC8, CHR ''O''] 0 (\<lambda>i. 0)
      = (\<lparr>success = True, correct = True, correctWord = None, guess_gameOver = Some True,
          guess_winner = Some WHITE_HAT\<rparr>,
         endGame guessWorld ''room1'' guessState WHITE_HAT)"
    using inst [where guess = "[CHR ''M'', CHR 0xC8, CHR ''O'']"]
    by (simp add: Let_def lowered_word lowered_guesses)
  have 4: "getGameState (endGame guessWorld ''room1'' guessState WHITE_HAT) ''room1'' = None"
    using inst [where guess = "''Meo''"] by (simp add: Let_def)
  have 5: "submitWhiteHatGuess jsTrim jsToLowerCase guessWorld ''room1'' ''p6'' ''Meo'' 0 (\<lambda>i. 0)
      = (\<lparr>success = True, correct = False,
          correctWord = Some [CHR ''M'', CHR 0xE8, CHR ''o''],
          guess_gameOver = Some False, guess_winner = None\<rparr>,
         startNextRound guessWorld ''room1'' guessState 0 (\<lambda>i. 0))"
    using inst [where guess = "''Meo''"]
    by (simp add: Let_def lowered_word lowered_guesses guessWorld_continues w)
  show ?thesis
    using guessWorld_game guessState_phase guessWorld_pair w 1 2 3 4 5 by (intro conjI)
qed

text \<open>
  C4 as stated fails on a correct guess: the reply has no \<open>correctWord\<close>.
\<close>

theorem submitWhiteHatGuess_correct_counterexample:
  "correct (fst (submitWhiteHatGuess jsTrim jsToLowerCase guessWorld ''room1'' ''p6''
      [CHR ''m'', CHR 0xE8, CHR ''o''] 0 (\<lambda>i. 0)))
   \<and> correctWord (fst (submitWhiteHatGuess jsTrim jsToLowerCase guessWorld ''room1'' ''p6''
      [CHR ''m'', CHR 0xE8, CHR ''o''] 0 (\<lambda>i. 0))) = None"
  by (simp add: submitWhiteHatGuess_def guessWorld_game guessState_phase guessWorld_pair
      lowered_word lowered_guesses)

subsection \<open>The turn cursor\<close>

lemma skip_stop:
  "\<not> (i < length order \<and> order ! i \<in> set eliminated) \<Longrightarrow> skipEliminated order eliminated i = i"
  by (subst skipEliminated.simps) auto

lemma skip_step:
  "i < length order \<Longrightarrow> order ! i \<in> set eliminated
     \<Longrightarrow> skipEliminated order eliminated i = skipEliminated order eliminated (i + 1)"
  by (subst skipEliminated.simps) auto

lemma skip_ge: "i \<le> skipEliminated order eliminated i"
proof (induction order eliminated i rule: skipEliminated.induct)
  case (1 order eliminated i)
  show ?case
  proof (cases "i < length order \<and> order ! i \<in> set eliminated")
    case True
    with 1 have "i + 1 \<le> skipEliminated order eliminated (i + 1)" by simp
    with True show ?thesis by (simp add: skip_step)
  next
    case False
    then show ?thesis by (simp add: skip_stop)
  qed
qed

lemma skip_lands:
  "skipEliminated order eliminated i < length order
     \<Longrightarrow> order ! skipEliminated order eliminated i \<notin> set eliminated"
proof (induction order eliminated i rule: skipEliminated.induct)
  case (1 order eliminated i)
  show ?case
  proof (cases "i < length order \<and> order ! i \<in> set eliminated")
    case True
    with 1 show ?thesis by (simp add: skip_step)
  next
    case False
    with 1 show ?thesis by (auto simp: skip_stop)
  qed
qed

lemma skip_skipped:
  "i \<le> k \<Longrightarrow> k < skipEliminated order eliminated i
     \<Longrightarrow> k < length order \<and> order ! k \<in> set eliminated"
proof (induction order eliminated i rule: skipEliminated.induct)
  case (1 order eliminated i)
  show ?case
  proof (cases "i < length order \<and> order ! i \<in> set eliminated")
    case True
    show ?thesis
    proof (cases "k = i")
      case True
      with \<open>i < length order \<and> order ! i \<in> set eliminated\<close> show ?thesis by simp
    next
      case False
      with "1.prems" have "i + 1 \<le> k" by simp
      with 1 True show ?thesis by (simp add: skip_step)
    qed
  next
    case False
    with "1.prems" show ?thesis by (simp add: skip_stop)
  qed
qed

lemma gameOk_alt:
  "gameOk w rid st =
     (gameBound w rid st
      \<and> (phase st \<noteq> HINTING \<longrightarrow> length (turnOrder st) \<le> currentTurnIndex st)
      \<and> cursorOk st)"
  unfolding gameOk_def gameBound_def activeIds_def by blast

lemma deactivate_fields [simp]:
  "player_id (deactivate t p) = player_id p"
  "player_roomId (deactivate t p) = player_roomId p"
  "player_userId (deactivate t p) = player_userId p"
  "player_isActive (deactivate t p) = (player_isActive p \<and> player_id p \<noteq> t)"
  by (cases "player_id p = t"; simp add: deactivate_def)+

lemma activate_fields [simp]:
  "player_id (activate t p) = player_id p"
  "player_roomId (activate t p) = player_roomId p"
  "player_userId (activate t p) = player_userId p"
  "player_isActive (activate t p) = (player_isActive p \<or> player_id p = t)"
  by (cases "player_id p = t"; simp add: activate_def)+

lemma setRole_fields [simp]:
  "player_id (setRole t r p) = player_id p"
  "player_roomId (setRole t r p) = player_roomId p"
  "player_userId (setRole t r p) = player_userId p"
  "player_isActive (setRole t r p) = player_isActive p"
  by (cases "player_id p = t"; simp add: setRole_def)+

lemma withStatus_fields [simp]:
  "room_id (withStatus rid s r) = room_id r"
  "room_status (withStatus rid s r) = (if room_id r = rid then s else room_status r)"
  by (cases "room_id r = rid"; simp add: withStatus_def)+

lemma withHost_fields [simp]:
  "room_id (withHost rid u r) = room_id r"
  "room_status (withHost rid u r) = room_status r"
  by (cases "room_id r = rid"; simp add: withHost_def)+

lemma newPlayer_fields [simp]:
  "player_id (newPlayer pid u d rid) = pid"
  "player_roomId (newPlayer pid u d rid) = rid"
  "player_isActive (newPlayer pid u d rid) = True"
  by (simp_all add: newPlayer_def)

lemma activeIds_iff:
  "x \<in> activeIds w rid \<longleftrightarrow>
     (\<exists>p \<in> set (db_players w). player_id p = x \<and> player_roomId p = rid \<and> player_isActive p)"
  unfolding activeIds_def activePlayersOf_def by auto

lemma activeIds_map:
  assumes "\<And>p. player_id (f p) = player_id p"
    and "\<And>p. player_roomId (f p) = player_roomId p"
  shows "x \<in> activeIds (w\<lparr>db_players := map f (db_players w)\<rparr>) rid \<longleftrightarrow>
     (\<exists>p \<in> set (db_players w). player_id p = x \<and> player_roomId p = rid
        \<and> player_isActive (f p))"
  unfolding activeIds_iff using assms by (simp add: image_iff Bex_def) metis

lemma activeIds_markInactive: "activeIds (markInactive w t) rid = activeIds w rid - {t}"
proof (rule set_eqI)
  fix x
  show "x \<in> activeIds (markInactive w t) rid \<longleftrightarrow> x \<in> activeIds w rid - {t}"
    unfolding markInactive_def
    by (subst activeIds_map) (auto simp: activeIds_iff)
qed

lemma db_rooms_markInactive [simp]: "db_rooms (markInactive w t) = db_rooms w"
  by (simp add: markInactive_def)

lemma redis_markInactive [simp]: "redis_game (markInactive w t) = redis_game w"
  by (simp add: markInactive_def)

lemma ids_markInactive [simp]:
  "map player_id (db_players (markInactive w t)) = map player_id (db_players w)"
  by (simp add: markInactive_def)

lemma gameBound_markInactive:
  "gameBound w rid st \<Longrightarrow> gameBound (markInactive w t) rid st"
  unfolding gameBound_def by (auto simp: activeIds_markInactive)

lemma gameOk_markInactive: "gameOk w rid st \<Longrightarrow> gameOk (markInactive w t) rid st"
  unfolding gameOk_alt by (simp add: gameBound_markInactive)

lemma worldOk_markInactive: "worldOk w \<Longrightarrow> worldOk (markInactive w t)"
  unfolding worldOk_def by (simp add: gameOk_markInactive)

lemma gameBound_frame:
  "db_rooms w' = db_rooms w \<Longrightarrow> db_players w' = db_players w
     \<Longrightarrow> gameBound w' rid st = gameBound w rid st"
  unfolding gameBound_def activeIds_def activePlayersOf_def by simp

lemma gameOk_frame:
  "db_rooms w' = db_rooms w \<Longrightarrow> db_players w' = db_players w
     \<Longrightarrow> gameOk w' rid st = gameOk w rid st"
  unfolding gameOk_alt using gameBound_frame [of w' w rid st] by simp

lemma worldOk_frame:
  "db_rooms w' = db_rooms w \<Longrightarrow> db_players w' = db_players w
     \<Longrightarrow> redis_game w' = redis_game w \<Longrightarrow> worldOk w' = worldOk w"
  unfolding worldOk_def using gameOk_frame [of w' w] by simp

lemma worldOk_setGameState:
  "worldOk w \<Longrightarrow> gameOk w (roomId st) st \<Longrightarrow> worldOk (setGameState w st)"
  unfolding worldOk_def setGameState_def
  by (auto simp: gameOk_frame [of "w\<lparr>redis_game := x\<rparr>" w for x])

lemma worldOk_deleteGameState: "worldOk w \<Longrightarrow> worldOk (deleteGameState w rid)"
  unfolding worldOk_def deleteGameState_def
  by (auto simp: gameOk_frame [of "w\<lparr>redis_game := x\<rparr>" w for x] split: if_splits)

lemma find_SomeD: "find P xs = Some x \<Longrightarrow> x \<in> set xs \<and> P x"
  by (induction xs) (auto split: if_splits)

lemma set_sortRandom: "set (sortRandom rnd xs) = set xs"
  using mset_sortRandom [of rnd xs] by (metis set_mset_mset)

lemma worldOk_rounds [simp]: "worldOk (w\<lparr>db_rounds := x\<rparr>) = worldOk w"
  by (rule worldOk_frame) simp_all

lemma worldOk_clues [simp]: "worldOk (w\<lparr>db_clues := x\<rparr>) = worldOk w"
  by (rule worldOk_frame) simp_all

lemma worldOk_votes [simp]: "worldOk (w\<lparr>db_votes := x\<rparr>) = worldOk w"
  by (rule worldOk_frame) simp_all

lemma worldOk_wordPairs [simp]: "worldOk (w\<lparr>db_wordPairs := x\<rparr>) = worldOk w"
  by (rule worldOk_frame) simp_all

lemma gameBound_rounds [simp]: "gameBound (w\<lparr>db_rounds := x\<rparr>) rid st = gameBound w rid st"
  by (rule gameBound_frame) simp_all

lemma gameBound_clues [simp]: "gameBound (w\<lparr>db_clues := x\<rparr>) rid st = gameBound w rid st"
  by (rule gameBound_frame) simp_all

lemma gameBound_votes [simp]: "gameBound (w\<lparr>db_votes := x\<rparr>) rid st = gameBound w rid st"
  by (rule gameBound_frame) simp_all

lemma worldOk_setRoundPhase [simp]: "worldOk (setRoundPhase w i ph) = worldOk w"
  by (simp add: setRoundPhase_def)

lemma gameBound_setRoundPhase [simp]:
  "gameBound (setRoundPhase w i ph) rid st = gameBound w rid st"
  by (simp add: setRoundPhase_def)

lemma gameBound_state:
  "roomId st' = roomId st \<Longrightarrow> eliminatedPlayers st' = eliminatedPlayers st
     \<Longrightarrow> gameBound w rid st' = gameBound w rid st"
  by (simp add: gameBound_def)

lemma worldOk_game: "worldOk w \<Longrightarrow> getGameState w rid = Some st \<Longrightarrow> gameOk w rid st"
  by (simp add: worldOk_def getGameState_def)

lemma gameOk_bound: "gameOk w rid st \<Longrightarrow> gameBound w rid st"
  by (simp add: gameOk_alt)

lemma gameBound_roomId: "gameBound w rid st \<Longrightarrow> roomId st = rid"
  by (simp add: gameBound_def)

lemma gameBound_setRoomStatus:
  assumes "s \<noteq> WAITING" and "gameBound w rid st"
  shows "gameBound (setRoomStatus w rid' s) rid st"
proof -
  have "activeIds (setRoomStatus w rid' s) rid = activeIds w rid"
    by (simp add: activeIds_def activePlayersOf_def setRoomStatus_def)
  moreover have "\<exists>r \<in> set (db_rooms (setRoomStatus w rid' s)). room_id r = rid"
    using assms(2) by (auto simp: gameBound_def setRoomStatus_def)
  moreover have "\<forall>r \<in> set (db_rooms (setRoomStatus w rid' s)).
      room_id r = rid \<longrightarrow> room_status r \<noteq> WAITING"
    using assms by (auto simp: gameBound_def setRoomStatus_def)
  ultimately show ?thesis
    using assms(2) by (simp add: gameBound_def)
qed

lemma worldOk_setRoomStatus:
  assumes "s \<noteq> WAITING" and "worldOk w"
  shows "worldOk (setRoomStatus w rid' s)"
proof -
  have "gameOk (setRoomStatus w rid' s) rid st" if "gameOk w rid st" for rid st
    using that gameBound_setRoomStatus [OF assms(1), of w rid st rid'] by (simp add: gameOk_alt)
  with assms(2) show ?thesis
    by (simp add: worldOk_def setRoomStatus_def)
qed

lemma worldOk_endGame: "worldOk w \<Longrightarrow> worldOk (endGame w rid st side)"
  unfolding endGame_def Let_def
  by (auto intro!: worldOk_deleteGameState simp: worldOk_setRoomStatus split: option.splits)

lemma worldOk_startNextRound:
  assumes "worldOk w" and "gameBound w rid st"
  shows "worldOk (startNextRound w rid st draw rnd)"
proof (cases "getRandomWordPair w draw")
  case None
  with assms show ?thesis by (simp add: startNextRound_def)
next
  case (Some wordPair)
  let ?order = "map player_id (sortRandom rnd (activePlayersOf w rid))"
  let ?st = "st\<lparr>roundNumber := roundNumber st + 1, phase := HINTING, clues := [], votes := [],
               wordPairId := wp_id wordPair, turnOrder := ?order, currentTurnIndex := 0\<rparr>"
  let ?w = "w\<lparr>db_rounds := db_rounds w @
              [\<lparr>round_roomId = rid, round_roundNumber = roundNumber st + 1,
                round_wordPairId = wp_id wordPair, round_phase = HINTING,
                round_ended = False\<rparr>]\<rparr>"
  have eq: "startNextRound w rid st draw rnd = setGameState ?w ?st"
    using Some by (simp add: startNextRound_def Let_def)
  have rid: "roomId ?st = rid"
    using assms(2) by (simp add: gameBound_def)
  have bound: "gameBound ?w rid ?st"
    using assms(2) by (simp add: gameBound_def activeIds_def activePlayersOf_def)
  have "set ?order = activeIds w rid"
    by (simp add: activeIds_def set_sortRandom)
  then have "cursorOk ?st"
    using assms(2) by (auto simp: cursorOk_def nthOpt_def gameBound_def split: option.splits)
  with bound have "gameOk ?w (roomId ?st) ?st"
    unfolding rid by (simp add: gameOk_alt)
  with assms(1) show ?thesis
    unfolding eq by (intro worldOk_setGameState) simp_all
qed

lemma gameOk_votes:
  "gameOk w rid (st\<lparr>votes := vs\<rparr>) = gameOk w rid st"
  by (simp add: gameOk_def cursorOk_def cong: option.case_cong)

lemma submitVote_effect:
  assumes "worldOk w"
  shows "worldOk (snd (submitVote w rid voterId targetId))
       \<and> (\<forall>allVoted. fst (submitVote w rid voterId targetId) = VoteAccepted allVoted \<longrightarrow>
             (\<exists>st. getGameState (snd (submitVote w rid voterId targetId)) rid = Some st
                   \<and> phase st = VOTING))"
proof (cases "getGameState w rid")
  case None
  with assms show ?thesis by (simp add: submitVote_def)
next
  case (Some st)
  with assms have ok: "gameOk w rid st"
    by (rule worldOk_game)
  then have rid: "roomId st = rid"
    by (simp add: gameOk_def)
  show ?thesis
  proof (cases "phase st \<noteq> VOTING \<or> voterId \<in> set (eliminatedPlayers st)
      \<or> truthy (map_of (votes st) voterId) \<or> findRound w rid (roundNumber st) = None")
    case True
    with Some assms show ?thesis
      by (auto simp: submitVote_def)
  next
    case False
    then obtain round where round: "findRound w rid (roundNumber st) = Some round"
      by auto
    let ?st = "st\<lparr>votes := AList.update voterId targetId (votes st)\<rparr>"
    let ?w = "w\<lparr>db_votes := db_votes w @ [(round, voterId, targetId)]\<rparr>"
    from False Some round have eq: "snd (submitVote w rid voterId targetId) = setGameState ?w ?st"
      by (simp add: submitVote_def Let_def)
    have "gameOk ?w (roomId ?st) ?st"
      using ok rid gameOk_frame [of ?w w rid ?st] by (simp add: gameOk_votes)
    with assms have "worldOk (setGameState ?w ?st)"
      by (intro worldOk_setGameState) simp_all
    moreover have "getGameState (setGameState ?w ?st) rid = Some ?st"
      using rid by (simp add: getGameState_def setGameState_def)
    moreover have "phase ?st = VOTING"
      using False by simp
    ultimately show ?thesis
      unfolding eq by blast
  qed
qed

lemma activeIds_roundPhase [simp]:
  "activeIds (case x of None \<Rightarrow> w | Some r \<Rightarrow> setRoundPhase w r ph) rid = activeIds w rid"
  by (cases x) (simp_all add: activeIds_def activePlayersOf_def setRoundPhase_def)

lemma worldOk_roundPhase [simp]:
  "worldOk (case x of None \<Rightarrow> w | Some r \<Rightarrow> setRoundPhase w r ph) = worldOk w"
  by (cases x) simp_all

lemma gameBound_roundPhase [simp]:
  "gameBound (case x of None \<Rightarrow> w | Some r \<Rightarrow> setRoundPhase w r ph) rid st = gameBound w rid st"
  by (cases x) simp_all

lemma gameBound_eliminate:
  assumes "gameBound w rid st"
  shows "gameBound (markInactive w t) rid
           (st\<lparr>eliminatedPlayers := eliminatedPlayers st @ [t]\<rparr>)"
  using assms unfolding gameBound_def by (auto simp: activeIds_markInactive)

lemma worldOk_resolveVotes:
  assumes "worldOk w" and "getGameState w rid = Some st" and "phase st \<noteq> HINTING"
  shows "worldOk (snd (resolveVotes w rid draw rnd))"
proof -
  from assms have ok: "gameOk w rid st"
    by (simp add: worldOk_game)
  then have bound: "gameBound w rid st"
    by (rule gameOk_bound)
  then have rid: "roomId st = rid"
    by (rule gameBound_roomId)
  from ok assms(3) have past: "length (turnOrder st) \<le> currentTurnIndex st"
    by (simp add: gameOk_def)
  let ?top = "topTargetsOf (countVotes (votes st))"
  show ?thesis
  proof (cases "1 < length ?top")
    case True
    with assms(2) have "snd (resolveVotes w rid draw rnd) = startNextRound w rid st draw rnd"
      by (simp add: resolveVotes_def Let_def)
    with assms(1) bound show ?thesis
      by (simp add: worldOk_startNextRound)
  next
    case False
    show ?thesis
    proof (cases "nthOpt ?top 0")
      case None
      with False assms show ?thesis
        by (simp add: resolveVotes_def Let_def)
    next
      case (Some t)
      note top = this
      show ?thesis
      proof (cases "findPlayer w t")
        case None
        with False top assms show ?thesis
          by (simp add: resolveVotes_def Let_def)
      next
        case (Some player)
        let ?w = "markInactive w t"
        let ?st = "st\<lparr>eliminatedPlayers := eliminatedPlayers st @ [t]\<rparr>"
        have w: "worldOk ?w"
          using assms(1) by (rule worldOk_markInactive)
        have b: "gameBound ?w rid ?st"
          using bound by (rule gameBound_eliminate)
        show ?thesis
        proof (cases "player_role player = Some WHITE_HAT")
          case True
          let ?g = "?st\<lparr>phase := GUESSING\<rparr>"
          let ?w' = "case findRound ?w rid (roundNumber st) of
                       None \<Rightarrow> ?w | Some round \<Rightarrow> setRoundPhase ?w round GUESSING"
          from True False top Some assms(2)
          have eq: "snd (resolveVotes w rid draw rnd) = setGameState ?w' ?g"
            by (simp add: resolveVotes_def Let_def)
          have "gameBound ?w rid ?g"
            using b by (simp add: gameBound_def)
          then have "gameBound ?w' rid ?g"
            by simp
          moreover have "cursorOk ?g"
            using past by (simp add: cursorOk_def nthOpt_def)
          ultimately have "gameOk ?w' (roomId ?g) ?g"
            using past rid by (simp add: gameOk_alt)
          with w show ?thesis
            unfolding eq by (intro worldOk_setGameState) simp_all
        next
          case notWhite: False
          show ?thesis
          proof (cases "checkWinConditions ?w rid (Some ?st)")
            case GameContinues
            with notWhite False top Some assms(2)
            have "snd (resolveVotes w rid draw rnd) = startNextRound ?w rid ?st draw rnd"
              by (simp add: resolveVotes_def Let_def)
            with w b show ?thesis
              by (simp add: worldOk_startNextRound)
          next
            case (GameOver side)
            with notWhite False top Some assms(2)
            have "snd (resolveVotes w rid draw rnd) = endGame ?w rid ?st side"
              by (simp add: resolveVotes_def Let_def)
            with w show ?thesis
              by (simp add: worldOk_endGame)
          qed
        qed
      qed
    qed
  qed
qed

lemma worldOk_onSubmitVote:
  assumes "worldOk w"
  shows "worldOk (onSubmitVote w rid playerId targetPlayerId draw rnd)"
proof (cases "submitVote w rid playerId targetPlayerId")
  case (Pair reply w')
  from submitVote_effect [OF assms, of rid playerId targetPlayerId] Pair
  have w': "worldOk w'"
    and st: "\<And>allVoted. reply = VoteAccepted allVoted
      \<Longrightarrow> \<exists>st. getGameState w' rid = Some st \<and> phase st = VOTING"
    by simp_all
  show ?thesis
  proof (cases reply)
    case (VoteFailure m)
    with Pair w' show ?thesis by (simp add: onSubmitVote_def)
  next
    case (VoteAccepted allVoted)
    from st [OF this] obtain st where "getGameState w' rid = Some st" and "phase st = VOTING"
      by blast
    with w' have "worldOk (snd (resolveVotes w' rid draw rnd))"
      by (intro worldOk_resolveVotes [where st = st]) simp_all
    with VoteAccepted Pair w' show ?thesis
      by (simp add: onSubmitVote_def)
  qed
qed

lemma worldOk_submitWhiteHatGuess:
  assumes "worldOk w"
  shows "worldOk (snd (submitWhiteHatGuess trim toLowerCase w rid playerId guess draw rnd))"
proof (cases "getGameState w rid")
  case None
  with assms show ?thesis by (simp add: submitWhiteHatGuess_def)
next
  case (Some st)
  with assms have "gameBound w rid st"
    by (simp add: worldOk_game gameOk_bound)
  with assms Some show ?thesis
    by (auto simp: submitWhiteHatGuess_def worldOk_endGame worldOk_startNextRound
        split: option.splits WinResult.splits)
qed

lemma submitClue_accepted:
  assumes "getGameState w rid = Some st"
    and "\<forall>m. fst (submitClue w rid playerId content now) \<noteq> ClueFailure m"
  obtains round player where
           "phase st = HINTING"
           "nthOpt (turnOrder st) (currentTurnIndex st) = Some playerId"
           "findRound w rid (roundNumber st) = Some round"
           "findPlayer w playerId = Some player"
           "submitClue w rid playerId content now =
             (let j = skipEliminated (turnOrder st) (eliminatedPlayers st)
                        (currentTurnIndex st + 1);
                  st' = st\<lparr>clues := clues st @
                               [\<lparr>clue_playerId = playerId,
                                 clue_displayName = player_displayName player,
                                 clue_content = content, clue_createdAt = now\<rparr>],
                             currentTurnIndex := j\<rparr>;
                  w' = w\<lparr>db_clues := db_clues w @ [(round, playerId, content)]\<rparr>
              in if length (turnOrder st) \<le> j
                 then (VotingStarted,
                       setGameState (setRoundPhase w' round VOTING) (st'\<lparr>phase := VOTING\<rparr>))
                 else (NextPlayer (turnOrder st ! j), setGameState w' st'))"
proof -
  from assms have ph: "phase st = HINTING"
    by (auto simp: submitClue_def split: if_splits)
  from assms ph have turn: "nthOpt (turnOrder st) (currentTurnIndex st) = Some playerId"
    by (auto simp: submitClue_def split: if_splits)
  from assms ph turn obtain round where round: "findRound w rid (roundNumber st) = Some round"
    by (cases "findRound w rid (roundNumber st)") (auto simp: submitClue_def)
  from assms ph turn round obtain player where player: "findPlayer w playerId = Some player"
    by (cases "findPlayer w playerId") (auto simp: submitClue_def)
  from assms(1) ph turn round player
  have "submitClue w rid playerId content now =
             (let j = skipEliminated (turnOrder st) (eliminatedPlayers st)
                        (currentTurnIndex st + 1);
                  st' = st\<lparr>clues := clues st @
                               [\<lparr>clue_playerId = playerId,
                                 clue_displayName = player_displayName player,
                                 clue_content = content, clue_createdAt = now\<rparr>],
                             currentTurnIndex := j\<rparr>;
                  w' = w\<lparr>db_clues := db_clues w @ [(round, playerId, content)]\<rparr>
              in if length (turnOrder st) \<le> j
                 then (VotingStarted,
                       setGameState (setRoundPhase w' round VOTING) (st'\<lparr>phase := VOTING\<rparr>))
                 else (NextPlayer (turnOrder st ! j), setGameState w' st'))"
    by (simp add: submitClue_def Let_def)
  with ph turn round player show ?thesis
    by (rule that)
qed

lemma submitClue_rejected:
  "fst (submitClue w rid playerId content now) = ClueFailure m
     \<Longrightarrow> snd (submitClue w rid playerId content now) = w"
  by (auto simp: submitClue_def Let_def split: option.splits if_splits)

lemma worldOk_submitClue:
  assumes "worldOk w"
  shows "worldOk (snd (submitClue w rid playerId content now))"
proof (cases "\<exists>m. fst (submitClue w rid playerId content now) = ClueFailure m")
  case True
  with assms show ?thesis
    by (auto simp: submitClue_rejected)
next
  case False
  then obtain st where st: "getGameState w rid = Some st"
    by (cases "getGameState w rid") (auto simp: submitClue_def)
  with assms have ok: "gameOk w rid st"
    by (rule worldOk_game)
  then have rid: "roomId st = rid" and bound: "gameBound w rid st"
    by (simp_all add: gameOk_alt gameBound_def)
  from False have accepted: "\<forall>m. fst (submitClue w rid playerId content now) \<noteq> ClueFailure m"
    by simp
  obtain round player where ph: "phase st = HINTING"
    and "nthOpt (turnOrder st) (currentTurnIndex st) = Some playerId"
    and "findRound w rid (roundNumber st) = Some round"
    and "findPlayer w playerId = Some player"
    and eq: "submitClue w rid playerId content now =
             (let j = skipEliminated (turnOrder st) (eliminatedPlayers st)
                        (currentTurnIndex st + 1);
                  st' = st\<lparr>clues := clues st @
                               [\<lparr>clue_playerId = playerId,
                                 clue_displayName = player_displayName player,
                                 clue_content = content, clue_createdAt = now\<rparr>],
                             currentTurnIndex := j\<rparr>;
                  w' = w\<lparr>db_clues := db_clues w @ [(round, playerId, content)]\<rparr>
              in if length (turnOrder st) \<le> j
                 then (VotingStarted,
                       setGameState (setRoundPhase w' round VOTING) (st'\<lparr>phase := VOTING\<rparr>))
                 else (NextPlayer (turnOrder st ! j), setGameState w' st'))"
    by (rule submitClue_accepted [OF st accepted])
  define j where "j = skipEliminated (turnOrder st) (eliminatedPlayers st) (currentTurnIndex st + 1)"
  define st' where "st' = st\<lparr>clues := clues st @
                               [\<lparr>clue_playerId = playerId,
                                 clue_displayName = player_displayName player,
                                 clue_content = content, clue_createdAt = now\<rparr>],
                             currentTurnIndex := j\<rparr>"
  define w' where "w' = w\<lparr>db_clues := db_clues w @ [(round, playerId, content)]\<rparr>"
  have w': "worldOk w'" "worldOk (setRoundPhase w' round VOTING)"
    using assms by (simp_all add: w'_def)
  have b: "gameBound w' rid st'" "gameBound (setRoundPhase w' round VOTING) rid (st'\<lparr>phase := VOTING\<rparr>)"
    using bound
    by (simp_all add: w'_def st'_def gameBound_def activeIds_def activePlayersOf_def
        setRoundPhase_def)
  have lands: "j < length (turnOrder st) \<Longrightarrow> turnOrder st ! j \<notin> set (eliminatedPlayers st)"
    unfolding j_def by (rule skip_lands)
  show ?thesis
  proof (cases "length (turnOrder st) \<le> j")
    case True
    then have "snd (submitClue w rid playerId content now)
        = setGameState (setRoundPhase w' round VOTING) (st'\<lparr>phase := VOTING\<rparr>)"
      unfolding eq by (simp add: Let_def j_def st'_def w'_def)
    moreover have "gameOk (setRoundPhase w' round VOTING) (roomId (st'\<lparr>phase := VOTING\<rparr>))
        (st'\<lparr>phase := VOTING\<rparr>)"
      using b(2) True rid by (simp add: gameOk_alt st'_def cursorOk_def nthOpt_def)
    ultimately show ?thesis
      using w'(2) by (simp add: worldOk_setGameState)
  next
    case False
    then have "snd (submitClue w rid playerId content now) = setGameState w' st'"
      unfolding eq by (simp add: Let_def j_def st'_def w'_def)
    moreover have "gameOk w' (roomId st') st'"
      using b(1) False rid ph lands by (simp add: gameOk_alt st'_def cursorOk_def nthOpt_def)
    ultimately show ?thesis
      using w'(1) by (simp add: worldOk_setGameState)
  qed
qed

lemma assignRole_frame [simp]:
  "db_rooms (assignRole w a) = db_rooms w"
  "redis_game (assignRole w a) = redis_game w"
  "map player_id (db_players (assignRole w a)) = map player_id (db_players w)"
  by (simp_all add: assignRole_def)

lemma activeIds_assignRole [simp]: "activeIds (assignRole w a) rid = activeIds w rid"
proof (rule set_eqI)
  fix x
  show "x \<in> activeIds (assignRole w a) rid \<longleftrightarrow> x \<in> activeIds w rid"
    unfolding assignRole_def by (subst activeIds_map) (auto simp: activeIds_iff)
qed

lemma gameBound_assignRole [simp]: "gameBound (assignRole w a) rid st = gameBound w rid st"
  by (simp add: gameBound_def)

lemma gameOk_assignRole [simp]: "gameOk (assignRole w a) rid st = gameOk w rid st"
  by (simp add: gameOk_alt)

lemma worldOk_assignRole [simp]: "worldOk (assignRole w a) = worldOk w"
  by (simp add: worldOk_def)

lemma foldl_assignRole:
  "worldOk (foldl assignRole w xs) = worldOk w"
  "gameBound (foldl assignRole w xs) rid st = gameBound w rid st"
  by (induction xs arbitrary: w) simp_all

lemma worldOk_startGame:
  assumes "worldOk w"
  shows "worldOk (snd (startGame w rid hostUserId draw rndRoles rndOrder))"
proof (cases "\<exists>wordPairId. fst (startGame w rid hostUserId draw rndRoles rndOrder)
    = Started wordPairId")
  case False
  then have "snd (startGame w rid hostUserId draw rndRoles rndOrder) = w"
    by (auto simp: startGame_def Let_def split: option.splits if_splits)
  with assms show ?thesis by simp
next
  case True
  then obtain room wordPair where room: "findRoom w rid = Some room"
    and pair: "getRandomWordPair w draw = Some wordPair"
    by (auto simp: startGame_def Let_def split: option.splits if_splits)
  from True room pair have guards: "room_hostId room = hostUserId" "room_status room = WAITING"
    "\<not> length (activePlayersOf w rid) < MIN_PLAYERS"
    by (auto simp: startGame_def Let_def split: if_splits)
  let ?gs = "\<lparr>roomId = rid, roundNumber = 1, phase = HINTING,
             turnOrder = map player_id (sortRandom rndOrder (activePlayersOf w rid)),
             currentTurnIndex = 0, clues = [], votes = [], eliminatedPlayers = [],
             wordPairId = wp_id wordPair\<rparr>"
  let ?w1 = "setRoomStatus w rid IN_PROGRESS"
  let ?w2 = "foldl assignRole ?w1
       (zip (map player_id (activePlayersOf w rid))
          (assignRoles rndRoles (int (length (activePlayersOf w rid)))))"
  let ?w3 = "?w2\<lparr>db_rounds := db_rounds ?w2 @
         [\<lparr>round_roomId = rid, round_roundNumber = 1, round_wordPairId = wp_id wordPair,
           round_phase = HINTING, round_ended = False\<rparr>]\<rparr>"
  from room pair guards
  have eq: "snd (startGame w rid hostUserId draw rndRoles rndOrder) = setGameState ?w3 ?gs"
    by (simp add: startGame_def Let_def)
  have w3: "worldOk ?w3"
    using assms by (simp add: foldl_assignRole worldOk_setRoomStatus)
  from room have "room \<in> set (db_rooms w)" "room_id room = rid"
    using find_SomeD [of "\<lambda>r. room_id r = rid" "db_rooms w" room] by (simp_all add: findRoom_def)
  then have "\<exists>r \<in> set (db_rooms ?w1). room_id r = rid"
    by (auto simp: setRoomStatus_def)
  moreover have "\<forall>r \<in> set (db_rooms ?w1). room_id r = rid \<longrightarrow> room_status r \<noteq> WAITING"
    by (auto simp: setRoomStatus_def)
  ultimately have "gameBound ?w1 rid ?gs"
    by (simp add: gameBound_def)
  then have "gameBound ?w3 rid ?gs"
    by (simp add: foldl_assignRole)
  then have "gameOk ?w3 (roomId ?gs) ?gs"
    by (simp add: gameOk_alt cursorOk_def split: option.splits)
  with w3 show ?thesis
    unfolding eq by (rule worldOk_setGameState)
qed

lemma worldOk_createRoom:
  assumes "worldOk w" and "newRoomId \<notin> room_id ` set (db_rooms w)"
    and "newPlayerId \<notin> player_id ` set (db_players w)"
  shows "worldOk (createRoom w newRoomId code userId displayName newPlayerId)"
proof -
  let ?w = "createRoom w newRoomId code userId displayName newPlayerId"
  have ids: "distinct (map player_id (db_players ?w))"
    using assms(1,3) by (simp add: worldOk_def createRoom_def)
  have "gameOk ?w rid st" if "gameOk w rid st" for rid st
  proof -
    from that have bound: "gameBound w rid st"
      by (rule gameOk_bound)
    then obtain r where "r \<in> set (db_rooms w)" and "room_id r = rid"
      by (auto simp: gameBound_def)
    then have "rid \<in> room_id ` set (db_rooms w)"
      by force
    with assms(2) have ne: "rid \<noteq> newRoomId"
      by auto
    then have "activeIds ?w rid = activeIds w rid"
      by (auto simp: activeIds_iff createRoom_def)
    with bound ne have "gameBound ?w rid st"
      by (auto simp: gameBound_def createRoom_def)
    with that show ?thesis
      by (simp add: gameOk_alt)
  qed
  with assms(1) ids show ?thesis
    by (simp add: worldOk_def createRoom_def)
qed

lemma worldOk_addPlayer:
  assumes "worldOk w" and "newPlayerId \<notin> player_id ` set (db_players w)"
    and "room \<in> set (db_rooms w)" and "room_status room = WAITING"
  shows "worldOk (w\<lparr>db_players := db_players w @
                     [newPlayer newPlayerId userId displayName (room_id room)]\<rparr>)"
    (is "worldOk ?w")
proof -
  have ids: "distinct (map player_id (db_players ?w))"
    using assms(1,2) by (simp add: worldOk_def)
  have "gameOk ?w rid st" if "gameOk w rid st" for rid st
  proof -
    from that have bound: "gameBound w rid st"
      by (rule gameOk_bound)
    then have ne: "rid \<noteq> room_id room"
      using assms(3,4) by (auto simp: gameBound_def)
    then have "activeIds ?w rid = activeIds w rid"
      by (auto simp: activeIds_iff)
    with bound have "gameBound ?w rid st"
      by (simp add: gameBound_def)
    with that show ?thesis
      by (simp add: gameOk_alt)
  qed
  with assms(1) ids show ?thesis
    by (simp add: worldOk_def)
qed

lemma worldOk_reactivate:
  assumes "worldOk w" and "existing \<in> set (db_players w)"
    and "player_roomId existing = room_id room"
    and "room \<in> set (db_rooms w)" and "room_status room = WAITING"
  shows "worldOk (w\<lparr>db_players := map (activate (player_id existing)) (db_players w)\<rparr>)"
    (is "worldOk ?w")
proof -
  from assms(1) have dist: "distinct (map player_id (db_players w))"
    by (simp add: worldOk_def)
  have same: "p = existing"
    if "p \<in> set (db_players w)" and "player_id p = player_id existing" for p
    using dist that assms(2) by (meson distinct_map inj_onD)
  have ids: "distinct (map player_id (db_players ?w))"
    using dist by (simp add: comp_def)
  have "gameOk ?w rid st" if "gameOk w rid st" for rid st
  proof -
    from that have bound: "gameBound w rid st"
      by (rule gameOk_bound)
    then have ne: "rid \<noteq> room_id room"
      using assms(4,5) by (auto simp: gameBound_def)
    have "activeIds ?w rid = activeIds w rid"
    proof (rule set_eqI)
      fix x
      show "x \<in> activeIds ?w rid \<longleftrightarrow> x \<in> activeIds w rid"
        using ne same assms(3) by (subst activeIds_map) (auto simp: activeIds_iff)
    qed
    with bound have "gameBound ?w rid st"
      by (simp add: gameBound_def)
    with that show ?thesis
      by (simp add: gameOk_alt)
  qed
  with assms(1) ids show ?thesis
    by (simp add: worldOk_def)
qed

lemma worldOk_joinRoom:
  assumes "worldOk w" and "newPlayerId \<notin> player_id ` set (db_players w)"
  shows "worldOk (joinRoom w code userId displayName newPlayerId)"
proof (cases "findRoomByCode w code")
  case None
  with assms(1) show ?thesis by (simp add: joinRoom_def)
next
  case (Some room)
  then have room: "room \<in> set (db_rooms w)"
    using find_SomeD [of _ "db_rooms w" room] by (simp add: findRoomByCode_def)
  show ?thesis
  proof (cases "findMembership w userId (room_id room)")
    case None
    with Some assms room show ?thesis
      by (simp add: joinRoom_def worldOk_addPlayer)
  next
    case existing: (Some existing)
    then have "existing \<in> set (db_players w)" "player_roomId existing = room_id room"
      using find_SomeD [of "\<lambda>p. player_userId p = userId \<and> player_roomId p = room_id room"
          "db_players w" existing]
      by (simp_all add: findMembership_def)
    with Some existing assms(1) room show ?thesis
      by (simp add: joinRoom_def worldOk_reactivate)
  qed
qed

lemma worldOk_withHost:
  "worldOk w \<Longrightarrow> worldOk (w\<lparr>db_rooms := map (withHost rid userId) (db_rooms w)\<rparr>)"
proof -
  assume ok: "worldOk w"
  let ?w = "w\<lparr>db_rooms := map (withHost rid userId) (db_rooms w)\<rparr>"
  have "gameOk ?w r st" if "gameOk w r st" for r st
  proof -
    have "activeIds ?w r = activeIds w r"
      by (simp add: activeIds_def activePlayersOf_def)
    with that show ?thesis
      by (auto simp: gameOk_alt gameBound_def)
  qed
  with ok show ?thesis
    by (simp add: worldOk_def)
qed

lemma worldOk_leaveRoom:
  assumes "worldOk w"
  shows "worldOk (leaveRoom w rid userId)"
proof (cases "findRoom w rid")
  case None
  with assms show ?thesis by (simp add: leaveRoom_def)
next
  case (Some room)
  show ?thesis
  proof (cases "findMembership w userId (room_id room)")
    case None
    with Some assms show ?thesis by (simp add: leaveRoom_def)
  next
    case player: (Some player)
    let ?w = "markInactive w (player_id player)"
    have ok: "worldOk ?w"
      using assms by (rule worldOk_markInactive)
    show ?thesis
    proof (cases "room_hostId room = userId \<and> room_status room = WAITING")
      case False
      with Some player ok show ?thesis
        by (auto simp: leaveRoom_def Let_def)
    next
      case True
      show ?thesis
      proof (cases "find (\<lambda>p. player_roomId p = room_id room \<and> player_isActive p
                             \<and> player_userId p \<noteq> userId) (db_players ?w)")
        case None
        with True Some player ok show ?thesis
          by (simp add: leaveRoom_def Let_def worldOk_setRoomStatus)
      next
        case nextPlayer: (Some nextPlayer)
        from worldOk_withHost [OF ok, of "room_id room" "player_userId nextPlayer"]
        have "worldOk (?w\<lparr>db_rooms :=
            map (withHost (room_id room) (player_userId nextPlayer)) (db_rooms ?w)\<rparr>)" .
        with True Some player nextPlayer show ?thesis
          by (simp add: leaveRoom_def Let_def)
      qed
    qed
  qed
qed

lemma worldOk_initial: "worldOk initialWorld"
  by (simp add: worldOk_def initialWorld_def)

lemma reachable_worldOk: "reachable w \<Longrightarrow> worldOk w"
proof (induction rule: reachable.induct)
  case initial
  show ?case by (rule worldOk_initial)
next
  case (words w pairs)
  then show ?case by simp
next
  case (expiry w rid)
  then show ?case by (simp add: worldOk_deleteGameState)
next
  case (create w newRoomId newPlayerId code userId displayName)
  then show ?case by (simp add: worldOk_createRoom)
next
  case (join w newPlayerId code userId displayName)
  then show ?case by (simp add: worldOk_joinRoom)
next
  case (leave w rid userId)
  then show ?case by (simp add: worldOk_leaveRoom)
next
  case (start w rid userId draw rndRoles rndOrder)
  then show ?case by (simp add: worldOk_startGame)
next
  case (clue w rid playerId content now)
  then show ?case by (simp add: worldOk_submitClue)
next
  case (vote w rid playerId targetPlayerId draw rnd)
  then show ?case by (simp add: worldOk_onSubmitVote)
next
  case (guess w trim toLowerCase rid playerId guess draw rnd)
  then show ?case by (simp add: worldOk_submitWhiteHatGuess)
qed

lemma lobby1_eq: "lobby1 = lobbyOf [newPlayer ''p1'' ''user-p1'' ''p1'' ''room1'']"
  by (simp add: lobby1_def lobbyOf_def createRoom_def initialWorld_def MAX_PLAYERS_def)

lemma join_lobbyOf:
  assumes "length ps < 8"
    and "\<forall>p \<in> set ps. player_roomId p = ''room1'' \<and> player_isActive p \<and> player_userId p \<noteq> u"
  shows "joinRoom (lobbyOf ps) ''ABCDEF'' u d pid = lobbyOf (ps @ [newPlayer pid u d ''room1''])"
proof -
  have act: "activePlayersOf (lobbyOf ps) ''room1'' = ps"
    using assms(2) by (simp add: activePlayersOf_def lobbyOf_def)
  have none: "findMembership (lobbyOf ps) u ''room1'' = None"
    using assms(2) by (auto simp: findMembership_def lobbyOf_def find_None_iff)
  have room: "findRoomByCode (lobbyOf ps) ''ABCDEF'' =
      Some \<lparr>room_id = ''room1'', room_code = ''ABCDEF'', room_hostId = ''user-p1'',
            room_status = WAITING, room_maxPlayers = 8\<rparr>"
    by (simp add: findRoomByCode_def lobbyOf_def)
  have added: "(lobbyOf ps)\<lparr>db_players := db_players (lobbyOf ps) @ [q]\<rparr> = lobbyOf (ps @ [q])"
    for q
    by (simp add: lobbyOf_def)
  show ?thesis
    using assms(1) by (simp add: joinRoom_def room act none added)
qed

lemma lobby2_eq:
  "lobby2 = lobbyOf [newPlayer ''p1'' ''user-p1'' ''p1'' ''room1'',
                     newPlayer ''p2'' ''user-p2'' ''p2'' ''room1'']"
  unfolding lobby2_def lobby1_eq by (subst join_lobbyOf) (simp_all add: newPlayer_def)

lemma lobby3_eq:
  "lobby3 = lobbyOf [newPlayer ''p1'' ''user-p1'' ''p1'' ''room1'',
                     newPlayer ''p2'' ''user-p2'' ''p2'' ''room1'',
                     newPlayer ''p3'' ''user-p3'' ''p3'' ''room1'']"
  unfolding lobby3_def lobby2_eq by (subst join_lobbyOf) (simp_all add: newPlayer_def)

lemma lobby4_eq:
  "lobby4 = lobbyOf [newPlayer ''p1'' ''user-p1'' ''p1'' ''room1'',
                     newPlayer ''p2'' ''user-p2'' ''p2'' ''room1'',
                     newPlayer ''p3'' ''user-p3'' ''p3'' ''room1'',
                     newPlayer ''p4'' ''user-p4'' ''p4'' ''room1'']"
  unfolding lobby4_def lobby3_eq by (subst join_lobbyOf) (simp_all add: newPlayer_def)

lemma reachable_startedWorld: "reachable startedWorld"
proof -
  have "reachable (initialWorld\<lparr>db_wordPairs := [demoPair True]\<rparr>)"
    by (intro reachable.words reachable.initial)
  then have "reachable lobby1"
    unfolding lobby1_def by (rule reachable.create) (simp_all add: initialWorld_def)
  then have "reachable lobby2"
    unfolding lobby2_def by (rule reachable.join) (simp add: lobby1_eq lobbyOf_def)
  then have "reachable lobby3"
    unfolding lobby3_def by (rule reachable.join) (simp add: lobby2_eq lobbyOf_def)
  then have "reachable lobby4"
    unfolding lobby4_def by (rule reachable.join) (simp add: lobby3_eq lobbyOf_def)
  then show ?thesis
    unfolding startedWorld_def by (rule reachable.start)
qed

lemma foldl_assignRole_frame:
  "db_rounds (foldl assignRole w xs) = db_rounds w"
  "map player_id (db_players (foldl assignRole w xs)) = map player_id (db_players w)"
  by (induction xs arbitrary: w) (simp_all add: assignRole_def)

lemma findPlayer_known:
  "pid \<in> set (map player_id (db_players w)) \<Longrightarrow> \<exists>p. findPlayer w pid = Some p"
  by (cases "findPlayer w pid") (auto simp: findPlayer_def find_None_iff)

lemma startedWorld_eq:
  "startedWorld =
     setGameState
       ((foldl assignRole (setRoomStatus lobby4 ''room1'' IN_PROGRESS)
           (zip [''p1'', ''p2'', ''p3'', ''p4''] (assignRoles (\<lambda>i. 0) 4)))
        \<lparr>db_rounds :=
           [\<lparr>round_roomId = ''room1'', round_roundNumber = 1, round_wordPairId = ''wp1'',
             round_phase = HINTING, round_ended = False\<rparr>]\<rparr>)
       (demoState HINTING [''p1'', ''p2'', ''p3'', ''p4''] 0 [] [])"
proof -
  have act: "activePlayersOf lobby4 ''room1'' = db_players lobby4"
    by (simp add: lobby4_eq lobbyOf_def activePlayersOf_def newPlayer_def)
  have players: "map player_id (db_players lobby4) = [''p1'', ''p2'', ''p3'', ''p4'']"
    "length (db_players lobby4) = 4"
    by (simp_all add: lobby4_eq lobbyOf_def newPlayer_def)
  have order: "map player_id (sortRandom (\<lambda>i. 0) (db_players lobby4))
      = [''p1'', ''p2'', ''p3'', ''p4'']"
    by (simp add: lobby4_eq lobbyOf_def newPlayer_def)
  have room: "findRoom lobby4 ''room1'' =
      Some \<lparr>room_id = ''room1'', room_code = ''ABCDEF'', room_hostId = ''user-p1'',
            room_status = WAITING, room_maxPlayers = 8\<rparr>"
    by (simp add: lobby4_eq lobbyOf_def findRoom_def)
  have pair: "getRandomWordPair lobby4 0 = Some (demoPair True)"
    by (simp add: lobby4_eq lobbyOf_def getRandomWordPair_def demoPair_def nthOpt_def)
  have rounds: "db_rounds (setRoomStatus lobby4 ''room1'' IN_PROGRESS) = []"
    by (simp add: lobby4_eq lobbyOf_def setRoomStatus_def)
  show ?thesis
    unfolding startedWorld_def
    by (simp add: startGame_def room pair act players order MIN_PLAYERS_def Let_def
        foldl_assignRole_frame rounds demoState_def demoPair_def)
qed

lemma startedWorld_game:
  "getGameState startedWorld ''room1''
     = Some (demoState HINTING [''p1'', ''p2'', ''p3'', ''p4''] 0 [] [])"
  unfolding startedWorld_eq by (simp add: getGameState_def setGameState_def demoState_def)

lemma hintingWorld_game:
  "getGameState (hintingWorld i eliminated) ''room1'' = Some (hintingState i eliminated)"
  by (simp add: hintingWorld_def demoWorld_def getGameState_def)

lemma hintingWorld_clues:
  "fst (submitClue (hintingWorld 0 [''p2'']) ''room1'' ''p1'' ''clue'' 0) = NextPlayer ''p3''"
  "fst (submitClue (hintingWorld 2 [''p2'', ''p4'']) ''room1'' ''p3'' ''clue'' 0) = VotingStarted"
proof -
  have round: "findRound (hintingWorld i eliminated) ''room1'' 1 = Some 0" for i eliminated
    by (simp add: findRound_def hintingWorld_def demoWorld_def)
  have players:
    "findPlayer (hintingWorld i eliminated) ''p1'' = Some (demoPlayer ''p1'' BLACK_HAT True)"
    "findPlayer (hintingWorld i eliminated) ''p3'' = Some (demoPlayer ''p3'' CIVILIAN True)"
    for i eliminated
    by (simp_all add: findPlayer_def hintingWorld_def demoWorld_def fourPlayers_def
        demoPlayer_def)
  have "skipEliminated [''p1'', ''p2'', ''p3'', ''p4''] [''p2''] (Suc 0)
      = skipEliminated [''p1'', ''p2'', ''p3'', ''p4''] [''p2''] (Suc (Suc 0))"
    using skip_step [of "Suc 0" "[''p1'', ''p2'', ''p3'', ''p4'']" "[''p2'']"] by simp
  also have "\<dots> = Suc (Suc 0)"
    by (simp add: skip_stop)
  finally have skip1:
    "skipEliminated [''p1'', ''p2'', ''p3'', ''p4''] [''p2''] (Suc 0) = Suc (Suc 0)" .
  have "skipEliminated [''p1'', ''p2'', ''p3'', ''p4''] [''p2'', ''p4''] 3
      = skipEliminated [''p1'', ''p2'', ''p3'', ''p4''] [''p2'', ''p4''] 4"
    using skip_step [of 3 "[''p1'', ''p2'', ''p3'', ''p4'']" "[''p2'', ''p4'']"] by simp
  also have "\<dots> = 4"
    by (simp add: skip_stop)
  finally have skip2: "skipEliminated [''p1'', ''p2'', ''p3'', ''p4''] [''p2'', ''p4''] 3 = 4" .
  show "fst (submitClue (hintingWorld 0 [''p2'']) ''room1'' ''p1'' ''clue'' 0) = NextPlayer ''p3''"
    using round players skip1
    by (simp add: submitClue_def hintingWorld_game hintingState_def demoState_def nthOpt_def
        Let_def)
  show "fst (submitClue (hintingWorld 2 [''p2'', ''p4'']) ''room1'' ''p3'' ''clue'' 0)
      = VotingStarted"
    using round players skip2
    by (simp add: submitClue_def hintingWorld_game hintingState_def demoState_def nthOpt_def
        Let_def)
qed

text \<open>
  C5. In every reachable world and for every stored game, the turn cursor does not index
  an eliminated player, and the game is stored under its own room id. And for every
  game stored under its own room id, reachable or not, every accepted \<open>submitClue\<close>
  stores a state whose cursor is strictly higher, with exactly eliminated players
  strictly between the old and the new position: either the new cursor is inside the
  turn order, on a player who is not eliminated, the phase is still \<open>HINTING\<close> and the
  reply names that player, or the cursor is past the end, the phase is \<open>VOTING\<close> and the
  reply says that voting started. In the stored state the cursor again does not index an
  eliminated player.
\<close>

theorem turn_cursor_invariant:
  "(reachable w \<and> getGameState w rid = Some st \<longrightarrow> cursorOk st \<and> roomId st = rid)
   \<and> (getGameState w rid = Some st \<and> roomId st = rid
      \<and> (\<forall>m. fst (submitClue w rid playerId content now) \<noteq> ClueFailure m) \<longrightarrow>
        (\<exists>st'. getGameState (snd (submitClue w rid playerId content now)) rid = Some st'
             \<and> currentTurnIndex st < currentTurnIndex st'
             \<and> turnOrder st' = turnOrder st
             \<and> eliminatedPlayers st' = eliminatedPlayers st
             \<and> (\<forall>k. currentTurnIndex st < k \<and> k < currentTurnIndex st'
                    \<longrightarrow> turnOrder st ! k \<in> set (eliminatedPlayers st))
             \<and> (if currentTurnIndex st' < length (turnOrder st')
                then phase st' = HINTING
                   \<and> turnOrder st' ! currentTurnIndex st' \<notin> set (eliminatedPlayers st')
                   \<and> fst (submitClue w rid playerId content now)
                       = NextPlayer (turnOrder st' ! currentTurnIndex st')
                else phase st' = VOTING
                   \<and> fst (submitClue w rid playerId content now) = VotingStarted)
             \<and> cursorOk st'))"
proof (intro conjI impI)
  assume "reachable w \<and> getGameState w rid = Some st"
  then have ok: "gameOk w rid st"
    by (simp add: reachable_worldOk worldOk_game)
  then show "cursorOk st"
    by (simp add: gameOk_def)
  from ok show "roomId st = rid"
    by (simp add: gameOk_def)
next
  assume a: "getGameState w rid = Some st \<and> roomId st = rid
      \<and> (\<forall>m. fst (submitClue w rid playerId content now) \<noteq> ClueFailure m)"
  then have stored: "getGameState w rid = Some st" and rid: "roomId st = rid"
    and accepted: "\<forall>m. fst (submitClue w rid playerId content now) \<noteq> ClueFailure m"
    by simp_all
  obtain round player where ph: "phase st = HINTING"
    and "nthOpt (turnOrder st) (currentTurnIndex st) = Some playerId"
    and "findRound w rid (roundNumber st) = Some round"
    and "findPlayer w playerId = Some player"
    and eq: "submitClue w rid playerId content now =
             (let j = skipEliminated (turnOrder st) (eliminatedPlayers st)
                        (currentTurnIndex st + 1);
                  st' = st\<lparr>clues := clues st @
                               [\<lparr>clue_playerId = playerId,
                                 clue_displayName = player_displayName player,
                                 clue_content = content, clue_createdAt = now\<rparr>],
                             currentTurnIndex := j\<rparr>;
                  w' = w\<lparr>db_clues := db_clues w @ [(round, playerId, content)]\<rparr>
              in if length (turnOrder st) \<le> j
                 then (VotingStarted,
                       setGameState (setRoundPhase w' round VOTING) (st'\<lparr>phase := VOTING\<rparr>))
                 else (NextPlayer (turnOrder st ! j), setGameState w' st'))"
    by (rule submitClue_accepted [OF stored accepted])
  define j where "j = skipEliminated (turnOrder st) (eliminatedPlayers st) (currentTurnIndex st + 1)"
  define st' where "st' = st\<lparr>clues := clues st @
                               [\<lparr>clue_playerId = playerId,
                                 clue_displayName = player_displayName player,
                                 clue_content = content, clue_createdAt = now\<rparr>],
                             currentTurnIndex := j\<rparr>"
  have up: "currentTurnIndex st < j"
    using skip_ge [of "currentTurnIndex st + 1" "turnOrder st" "eliminatedPlayers st"]
    by (simp add: j_def)
  have skipped: "turnOrder st ! k \<in> set (eliminatedPlayers st)"
    if "currentTurnIndex st < k" and "k < j" for k
    using skip_skipped [of "currentTurnIndex st + 1" k "turnOrder st" "eliminatedPlayers st"] that
    by (simp add: j_def)
  have lands: "j < length (turnOrder st) \<Longrightarrow> turnOrder st ! j \<notin> set (eliminatedPlayers st)"
    unfolding j_def by (rule skip_lands)
  show "\<exists>st'. getGameState (snd (submitClue w rid playerId content now)) rid = Some st'
                 \<and> currentTurnIndex st < currentTurnIndex st'
                 \<and> turnOrder st' = turnOrder st
                 \<and> eliminatedPlayers st' = eliminatedPlayers st
                 \<and> (\<forall>k. currentTurnIndex st < k \<and> k < currentTurnIndex st'
                        \<longrightarrow> turnOrder st ! k \<in> set (eliminatedPlayers st))
                 \<and> (if currentTurnIndex st' < length (turnOrder st')
                    then phase st' = HINTING
                       \<and> turnOrder st' ! currentTurnIndex st' \<notin> set (eliminatedPlayers st')
                       \<and> fst (submitClue w rid playerId content now)
                           = NextPlayer (turnOrder st' ! currentTurnIndex st')
                    else phase st' = VOTING
                       \<and> fst (submitClue w rid playerId content now) = VotingStarted)
                 \<and> cursorOk st'"
  proof (cases "length (turnOrder st) \<le> j")
    case True
    then have r: "submitClue w rid playerId content now =
        (VotingStarted,
         setGameState
           (setRoundPhase (w\<lparr>db_clues := db_clues w @ [(round, playerId, content)]\<rparr>) round
              VOTING)
           (st'\<lparr>phase := VOTING\<rparr>))"
      unfolding eq by (simp add: Let_def j_def st'_def)
    have "getGameState (snd (submitClue w rid playerId content now)) rid
        = Some (st'\<lparr>phase := VOTING\<rparr>)"
      unfolding r using rid by (simp add: getGameState_def setGameState_def st'_def)
    moreover have "cursorOk (st'\<lparr>phase := VOTING\<rparr>)"
      using True by (simp add: cursorOk_def nthOpt_def st'_def)
    ultimately show ?thesis
      using True up skipped r by (simp add: st'_def)
  next
    case False
    then have r: "submitClue w rid playerId content now =
        (NextPlayer (turnOrder st ! j),
         setGameState (w\<lparr>db_clues := db_clues w @ [(round, playerId, content)]\<rparr>) st')"
      unfolding eq by (simp add: Let_def j_def st'_def)
    have "getGameState (snd (submitClue w rid playerId content now)) rid = Some st'"
      unfolding r using rid by (simp add: getGameState_def setGameState_def st'_def)
    moreover have "cursorOk st'"
      using False lands by (simp add: cursorOk_def nthOpt_def st'_def)
    ultimately show ?thesis
      using False up skipped lands ph r by (simp add: st'_def)
  qed
qed

text \<open>
  The witness of C5. The started game of four is reachable, its cursor is on \<open>p1\<close>. With
  \<open>p2\<close> eliminated and the cursor on \<open>p1\<close>, the clue of \<open>p1\<close> moves the cursor over \<open>p2\<close>
  to \<open>p3\<close>, position 2. With \<open>p2\<close> and \<open>p4\<close> eliminated and the cursor on \<open>p3\<close>, the clue of
  \<open>p3\<close> moves the cursor over \<open>p4\<close> past the end, and voting starts.
\<close>

theorem turn_cursor_invariant_witness:
  "reachable startedWorld
   \<and> getGameState startedWorld ''room1''
       = Some (demoState HINTING [''p1'', ''p2'', ''p3'', ''p4''] 0 [] [])
   \<and> cursorOk (demoState HINTING [''p1'', ''p2'', ''p3'', ''p4''] 0 [] [])
   \<and> getGameState (hintingWorld 0 [''p2'']) ''room1'' = Some (hintingState 0 [''p2''])
   \<and> fst (submitClue (hintingWorld 0 [''p2'']) ''room1'' ''p1'' ''clue'' 0) = NextPlayer ''p3''
   \<and> (\<exists>st'. getGameState (snd (submitClue (hintingWorld 0 [''p2'']) ''room1'' ''p1'' ''clue'' 0))
                ''room1'' = Some st'
            \<and> currentTurnIndex st' = 2 \<and> phase st' = HINTING \<and> cursorOk st')
   \<and> getGameState (hintingWorld 2 [''p2'', ''p4'']) ''room1''
       = Some (hintingState 2 [''p2'', ''p4''])
   \<and> fst (submitClue (hintingWorld 2 [''p2'', ''p4'']) ''room1'' ''p3'' ''clue'' 0)
       = VotingStarted
   \<and> (\<exists>st'. getGameState (snd (submitClue (hintingWorld 2 [''p2'', ''p4'']) ''room1'' ''p3''
                  ''clue'' 0)) ''room1'' = Some st'
            \<and> 4 \<le> currentTurnIndex st' \<and> phase st' = VOTING \<and> cursorOk st')"
proof -
  have started: "cursorOk (demoState HINTING [''p1'', ''p2'', ''p3'', ''p4''] 0 [] [])"
    using turn_cursor_invariant [of startedWorld "''room1''"
        "demoState HINTING [''p1'', ''p2'', ''p3'', ''p4''] 0 [] []"]
      reachable_startedWorld startedWorld_game
    by blast
  have fields: "roomId (hintingState i eliminated) = ''room1''"
    "turnOrder (hintingState i eliminated) = [''p1'', ''p2'', ''p3'', ''p4'']"
    "currentTurnIndex (hintingState i eliminated) = i"
    "eliminatedPlayers (hintingState i eliminated) = eliminated" for i eliminated
    by (simp_all add: hintingState_def demoState_def)
  have acc1: "\<forall>m. fst (submitClue (hintingWorld 0 [''p2'']) ''room1'' ''p1'' ''clue'' 0)
      \<noteq> ClueFailure m"
    by (simp add: hintingWorld_clues)
  from turn_cursor_invariant [of "hintingWorld 0 [''p2'']" "''room1''" "hintingState 0 [''p2'']"
      "''p1''" "''clue''" 0] hintingWorld_game [of 0 "[''p2'']"] acc1
  obtain st1 where
    st1: "getGameState (snd (submitClue (hintingWorld 0 [''p2'']) ''room1'' ''p1'' ''clue'' 0))
            ''room1'' = Some st1"
    and up1: "0 < currentTurnIndex st1"
    and order1: "turnOrder st1 = [''p1'', ''p2'', ''p3'', ''p4'']"
    and elim1: "eliminatedPlayers st1 = [''p2'']"
    and skipped1: "\<forall>k. 0 < k \<and> k < currentTurnIndex st1
            \<longrightarrow> [''p1'', ''p2'', ''p3'', ''p4''] ! k \<in> set [''p2'']"
    and last1: "if currentTurnIndex st1 < length (turnOrder st1)
         then phase st1 = HINTING
            \<and> turnOrder st1 ! currentTurnIndex st1 \<notin> set (eliminatedPlayers st1)
            \<and> fst (submitClue (hintingWorld 0 [''p2'']) ''room1'' ''p1'' ''clue'' 0)
                = NextPlayer (turnOrder st1 ! currentTurnIndex st1)
         else phase st1 = VOTING
            \<and> fst (submitClue (hintingWorld 0 [''p2'']) ''room1'' ''p1'' ''clue'' 0)
                = VotingStarted"
    and ok1: "cursorOk st1"
    by (auto simp: fields)
  from last1 have lt1: "currentTurnIndex st1 < 4" and ph1: "phase st1 = HINTING"
    and on1: "[''p1'', ''p2'', ''p3'', ''p4''] ! currentTurnIndex st1 \<noteq> ''p2''"
    by (auto simp: hintingWorld_clues order1 elim1 split: if_splits)
  from up1 lt1 consider "currentTurnIndex st1 = 1" | "currentTurnIndex st1 = 2"
    | "currentTurnIndex st1 = 3"
    by linarith
  then have two: "currentTurnIndex st1 = 2"
  proof cases
    case 1
    with on1 show ?thesis by simp
  next
    case 2
    then show ?thesis .
  next
    case 3
    with skipped1 [THEN spec, of 2] have "[''p1'', ''p2'', ''p3'', ''p4''] ! 2 \<in> set [''p2'']"
      by simp
    then show ?thesis by simp
  qed
  have first: "\<exists>st'. getGameState (snd (submitClue (hintingWorld 0 [''p2'']) ''room1'' ''p1''
                  ''clue'' 0)) ''room1'' = Some st'
            \<and> currentTurnIndex st' = 2 \<and> phase st' = HINTING \<and> cursorOk st'"
    using st1 two ph1 ok1 by blast
  have acc2: "\<forall>m. fst (submitClue (hintingWorld 2 [''p2'', ''p4'']) ''room1'' ''p3'' ''clue'' 0)
      \<noteq> ClueFailure m"
    by (simp add: hintingWorld_clues)
  from turn_cursor_invariant [of "hintingWorld 2 [''p2'', ''p4'']" "''room1''"
      "hintingState 2 [''p2'', ''p4'']" "''p3''" "''clue''" 0]
    hintingWorld_game [of 2 "[''p2'', ''p4'']"] acc2
  obtain st2 where
    st2: "getGameState (snd (submitClue (hintingWorld 2 [''p2'', ''p4'']) ''room1'' ''p3''
            ''clue'' 0)) ''room1'' = Some st2"
    and order2: "turnOrder st2 = [''p1'', ''p2'', ''p3'', ''p4'']"
    and last2: "if currentTurnIndex st2 < length (turnOrder st2)
         then phase st2 = HINTING
            \<and> turnOrder st2 ! currentTurnIndex st2 \<notin> set (eliminatedPlayers st2)
            \<and> fst (submitClue (hintingWorld 2 [''p2'', ''p4'']) ''room1'' ''p3'' ''clue'' 0)
                = NextPlayer (turnOrder st2 ! currentTurnIndex st2)
         else phase st2 = VOTING
            \<and> fst (submitClue (hintingWorld 2 [''p2'', ''p4'']) ''room1'' ''p3'' ''clue'' 0)
                = VotingStarted"
    and ok2: "cursorOk st2"
    by (auto simp: fields)
  from last2 have "4 \<le> currentTurnIndex st2" and "phase st2 = VOTING"
    by (auto simp: hintingWorld_clues order2 split: if_splits)
  with st2 ok2 have second: "\<exists>st'. getGameState (snd (submitClue (hintingWorld 2 [''p2'', ''p4''])
                  ''room1'' ''p3'' ''clue'' 0)) ''room1'' = Some st'
            \<and> 4 \<le> currentTurnIndex st' \<and> phase st' = VOTING \<and> cursorOk st'"
    by blast
  note g1 = hintingWorld_game [of 0 "[''p2'']"] and g2 = hintingWorld_game [of 2 "[''p2'', ''p4'']"]
  note c1 = hintingWorld_clues(1) and c2 = hintingWorld_clues(2)
  show ?thesis
    by (intro conjI) (fact reachable_startedWorld startedWorld_game started g1 c1 first g2 c2
        second)+
qed

end
